theory Spec2Isabelle
  imports
    Complex_Main
    "HOL-Library.Char_ord"
    "HOL-Library.List_Lexorder"
    "HOL-Library.Log_Nat"
    "HOL-Library.Multiset"
begin

section \<open>The embedding of the program\<close>

subsection \<open>Snapshot history\<close>

text \<open>
  The persisted history is a JSON object with a \<open>metadata\<close> object and a list of
  snapshots. A snapshot is a dictionary whose \<open>date\<close> entry is the ISO string of a
  calendar day; everything else it carries (collection time, metrics) is kept as one
  payload, since \<open>append_snapshot\<close> only ever reads the \<open>date\<close> entry. Python compares
  strings by code point, which is the order of \<open>Char_ord\<close> and \<open>List_Lexorder\<close>.
\<close>

record 'm snapshot =
  date :: string
  payload :: 'm

record history_metadata =
  created_at :: string
  last_updated :: string
  total_snapshots :: nat
  description :: string

record 'm stats_history =
  metadata :: history_metadata
  snapshots :: "'m snapshot list"

text \<open>
  \<open>append_snapshot(stats_history, snapshot)\<close>: drop the stored snapshots of the same
  date, append the new one, sort by date (Python's sort is stable, as \<open>sort_key\<close> is),
  then refresh \<open>last_updated\<close> and \<open>total_snapshots\<close>. The clock reading
  \<open>datetime.now().isoformat()\<close> is the parameter \<open>now\<close>.
\<close>

definition append_snapshot :: "string \<Rightarrow> 'm stats_history \<Rightarrow> 'm snapshot \<Rightarrow> 'm stats_history" where
  "append_snapshot now stats_history snapshot =
     (let snapshot_date = date snapshot;
          kept = filter (\<lambda>s. date s \<noteq> snapshot_date) (snapshots stats_history);
          appended = kept @ [snapshot];
          ordered = sort_key date appended
      in stats_history
           \<lparr> snapshots := ordered,
             metadata := (metadata stats_history)
               \<lparr> last_updated := now, total_snapshots := length ordered \<rparr> \<rparr>)"

subsection \<open>Python helpers\<close>

text \<open>
  A Python float is an IEEE 754 binary64 number; it is represented here by the rational number
  it denotes. \<open>binary64 x\<close> is the float nearest to \<open>x\<close>, ties going to the even significand:
  53 significant bits, and the fixed spacing \<open>2 ^ -1074\<close> below \<open>2 ^ -1022\<close>. Every float
  operation of the program is the exact operation followed by \<open>binary64\<close>. Numbers beyond the
  largest finite float, where Python answers \<open>inf\<close> or raises \<open>OverflowError\<close>, are not
  represented.
\<close>

definition round_half_even :: "rat \<Rightarrow> int" where
  "round_half_even x =
     (let f = \<lfloor>x\<rfloor>; d = x - of_int f
      in if d < 1 / 2 then f
         else if 1 / 2 < d then f + 1
         else if even f then f else f + 1)"

definition pow2 :: "int \<Rightarrow> rat" where
  "pow2 e = (if 0 \<le> e then 2 ^ nat e else 1 / 2 ^ nat (- e))"

text \<open>The exponent \<open>e\<close> with \<open>2 ^ e \<le> x < 2 ^ (e + 1)\<close>, for positive \<open>x\<close>.\<close>

definition floor_log2 :: "rat \<Rightarrow> int" where
  "floor_log2 x =
     (let (p, q) = quotient_of x;
          e = bitlen p - bitlen q
      in if pow2 e \<le> x then e else e - 1)"

definition binary64 :: "rat \<Rightarrow> rat" where
  "binary64 x =
     (if x = 0 then 0
      else (let quantum = pow2 (max (floor_log2 \<bar>x\<bar> - 52) (- 1074))
            in of_int (round_half_even (x / quantum)) * quantum))"

text \<open>\<open>a / b\<close> on two integers is the float nearest to the exact quotient.\<close>

definition py_true_divide :: "int \<Rightarrow> int \<Rightarrow> rat" where
  "py_true_divide a b = binary64 (of_int a / of_int b)"

text \<open>\<open>int(x)\<close> on a float truncates toward zero.\<close>

definition py_int :: "rat \<Rightarrow> int" where
  "py_int x = (if 0 \<le> x then \<lfloor>x\<rfloor> else \<lceil>x\<rceil>)"

definition py_int_quotient :: "int \<Rightarrow> int \<Rightarrow> int" where
  "py_int_quotient a b = py_int (py_true_divide a b)"

text \<open>
  \<open>round(x, 2)\<close> on a float rounds the exact value of \<open>x\<close> to two decimals, a tie going to the
  even last digit, and answers the float nearest to that decimal.
\<close>

definition py_round2 :: "rat \<Rightarrow> rat" where
  "py_round2 x = binary64 (of_int (round_half_even (x * 100)) / 100)"

definition startswith :: "string \<Rightarrow> string \<Rightarrow> bool" where
  "startswith s p = (take (length p) s = p)"

definition count_char :: "char \<Rightarrow> string \<Rightarrow> nat" where
  "count_char c s = length (filter (\<lambda>x. x = c) s)"

fun split_on :: "char \<Rightarrow> string \<Rightarrow> string list" where
  "split_on c [] = [[]]"
| "split_on c (x # xs) =
     (if x = c then [] # split_on c xs
      else (case split_on c xs of
              [] \<Rightarrow> [[x]]
            | w # ws \<Rightarrow> (x # w) # ws))"

text \<open>
  Characters are the code points below 256. \<open>str.isdigit\<close> accepts the ten ASCII digits and the
  superscript digits at 178, 179 and 185; \<open>int\<close> converts a string of ASCII digits and raises
  \<open>ValueError\<close> on the superscripts. The length limit of \<open>int\<close> on strings of more than 4300
  digits is not modelled.
\<close>

definition is_ascii_digit :: "char \<Rightarrow> bool" where
  "is_ascii_digit c = ((48::nat) \<le> of_char c \<and> (of_char c :: nat) \<le> 57)"

definition py_isdigit_char :: "char \<Rightarrow> bool" where
  "py_isdigit_char c =
     (is_ascii_digit c \<or> (of_char c :: nat) = 178 \<or> (of_char c :: nat) = 179
      \<or> (of_char c :: nat) = 185)"

definition isdigit :: "string \<Rightarrow> bool" where
  "isdigit s = (s \<noteq> [] \<and> list_all py_isdigit_char s)"

definition int_of_digits :: "string \<Rightarrow> int" where
  "int_of_digits s = foldl (\<lambda>acc c. acc * 10 + (of_char c - 48)) 0 s"

definition digit_char :: "nat \<Rightarrow> char" where
  "digit_char d = char_of (48 + d)"

fun str_nat :: "nat \<Rightarrow> string" where
  "str_nat n = (if n < 10 then [digit_char n] else str_nat (n div 10) @ [digit_char (n mod 10)])"

definition str_int :: "int \<Rightarrow> string" where
  "str_int i = (if i < 0 then CHR ''-'' # str_nat (nat (- i)) else str_nat (nat i))"

fun py_max_from :: "('a \<Rightarrow> 'k::linorder) \<Rightarrow> 'a \<Rightarrow> 'a list \<Rightarrow> 'a" where
  "py_max_from key best [] = best"
| "py_max_from key best (x # xs) = py_max_from key (if key best < key x then x else best) xs"

fun dict_set :: "'k \<Rightarrow> 'v \<Rightarrow> ('k \<times> 'v) list \<Rightarrow> ('k \<times> 'v) list" where
  "dict_set k v [] = [(k, v)]"
| "dict_set k v ((k', v') # kvs) =
     (if k' = k then (k', v) # kvs else (k', v') # dict_set k v kvs)"

subsection \<open>Constants\<close>

definition genesis_timestamp :: int where
  "genesis_timestamp = 1606824023"

definition FUSAKA_EPOCH :: int where
  "FUSAKA_EPOCH = 411392"

definition FUSAKA_DATETIME :: string where
  "FUSAKA_DATETIME = ''2025-12-03T21:49:11''"

subsection \<open>Last-attestation descriptors\<close>

datatype datetime_text = Isoformat_of_timestamp int | Literal_text string

record attestation_info =
  epoch :: "int option"
  timestamp :: "int option"
  datetime :: "datetime_text option"
  age_epochs :: "int option"
  status :: string

definition status_only :: "string \<Rightarrow> attestation_info" where
  "status_only s = \<lparr> epoch = None, timestamp = None, datetime = None, age_epochs = None, status = s \<rparr>"

definition older_than_status :: "int \<Rightarrow> string" where
  "older_than_status total_days = ''older_than_'' @ str_int total_days @ ''_days''"

definition is_found_status :: "string \<Rightarrow> bool" where
  "is_found_status s = (s = ''found'' \<or> s = ''found_extended'')"

text \<open>
  The key of an \<open>older_than\<close> descriptor in the selection by day count; \<open>None\<close> stands for the
  \<open>ValueError\<close> that \<open>int\<close> raises.
\<close>

definition older_day_count :: "attestation_info \<Rightarrow> int option" where
  "older_day_count x =
     (if 2 \<le> count_char CHR ''_'' (status x) \<and> isdigit (split_on CHR ''_'' (status x) ! 2)
      then (if list_all is_ascii_digit (split_on CHR ''_'' (status x) ! 2)
            then Some (int_of_digits (split_on CHR ''_'' (status x) ! 2))
            else None)
      else Some 10)"

definition get_node_last_attestation :: "attestation_info list \<Rightarrow> attestation_info" where
  "get_node_last_attestation attestations =
     (if attestations = [] then status_only ''no_data''
      else
        (case filter (\<lambda>att. is_found_status (status att)) attestations of
           first_found # more_found \<Rightarrow>
             (case filter (\<lambda>att. epoch att \<noteq> None) (first_found # more_found) of
                v # vs \<Rightarrow> py_max_from (\<lambda>x. the (epoch x)) v vs
              | [] \<Rightarrow> first_found)
         | [] \<Rightarrow>
             (case filter (\<lambda>att. startswith (status att) ''older_than_'') attestations of
                s # ss \<Rightarrow>
                  (if list_all (\<lambda>x. older_day_count x \<noteq> None) (s # ss)
                   then py_max_from (\<lambda>x. the (older_day_count x)) s ss
                   else status_only ''older_than_10_days'')
              | [] \<Rightarrow> status_only ''older_than_10_days'')))"

subsection \<open>Validator aggregates and the roster\<close>

record validator_aggregate =
  val_id :: int
  node_address :: string
  minipool_address :: string
  pubkey :: string
  total_earned_rewards :: int
  total_missed_rewards :: int
  total_penalties :: int
  total_possible_rewards :: int
  total_lost :: int
  total_epochs :: int
  successful_attestations :: int
  performance_score :: "rat option"
  last_attestation :: "attestation_info option"
  val_balance :: int
  val_balance_eth :: "rat option"
  val_effective_balance :: int
  val_effective_balance_eth :: rat

record rp_validator =
  rp_node_address :: string
  rp_minipool_address :: string
  rp_pubkey :: string

fun count_total :: "string \<Rightarrow> (string \<times> int) list \<Rightarrow> (string \<times> int) list" where
  "count_total node_addr [] = [(node_addr, 1)]"
| "count_total node_addr ((k, n) # rest) =
     (if k = node_addr then (k, n + 1) # rest else (k, n) # count_total node_addr rest)"

definition node_minipool_counts :: "rp_validator list \<Rightarrow> (string \<times> int) list" where
  "node_minipool_counts all_rp_validators =
     fold (\<lambda>validator counts. count_total (rp_node_address validator) counts) all_rp_validators []"

record node_aggregate =
  active_validators :: "int set"
  sum_earned_rewards :: int
  sum_missed_rewards :: int
  sum_penalties :: int
  sum_possible_rewards :: int
  sum_lost :: int
  last_attestations :: "attestation_info list"
  validator_balances :: "rat list"
  total_balance :: int
  validators_below_32_eth :: nat

definition new_node_aggregate :: node_aggregate where
  "new_node_aggregate =
     \<lparr> active_validators = {}, sum_earned_rewards = 0, sum_missed_rewards = 0, sum_penalties = 0,
       sum_possible_rewards = 0, sum_lost = 0, last_attestations = [], validator_balances = [],
       total_balance = 0, validators_below_32_eth = 0 \<rparr>"

definition add_balance :: "validator_aggregate \<Rightarrow> node_aggregate \<Rightarrow> node_aggregate" where
  "add_balance record nd =
     (case val_balance_eth record of
        None \<Rightarrow> nd
      | Some balance_eth \<Rightarrow>
          nd \<lparr> validator_balances := validator_balances nd @ [balance_eth],
               total_balance := total_balance nd + val_balance record,
               validators_below_32_eth :=
                 (if balance_eth < binary64 (319 / 10) then validators_below_32_eth nd + 1
                  else validators_below_32_eth nd) \<rparr>)"

definition add_record :: "validator_aggregate \<Rightarrow> node_aggregate \<Rightarrow> node_aggregate" where
  "add_record record nd =
     add_balance record
       (nd \<lparr> active_validators := insert (val_id record) (active_validators nd),
             sum_earned_rewards := sum_earned_rewards nd + total_earned_rewards record,
             sum_missed_rewards := sum_missed_rewards nd + total_missed_rewards record,
             sum_penalties := sum_penalties nd + total_penalties record,
             sum_possible_rewards := sum_possible_rewards nd + total_possible_rewards record,
             sum_lost := sum_lost nd + total_lost record,
             last_attestations :=
               (case last_attestation record of
                  None \<Rightarrow> last_attestations nd
                | Some att \<Rightarrow> last_attestations nd @ [att]) \<rparr>)"

fun group_by_node :: "validator_aggregate list \<Rightarrow> (string \<Rightarrow> node_aggregate) \<Rightarrow> string \<Rightarrow> node_aggregate" where
  "group_by_node [] node_data = node_data"
| "group_by_node (record # rest) node_data =
     group_by_node rest
       (node_data (node_address record := add_record record (node_data (node_address record))))"

subsection \<open>Node records\<close>

datatype score = Not_available | Score rat

record fusaka_entry =
  fusaka_node_address :: string
  fusaka_epoch :: int
  fusaka_timestamp :: int
  fusaka_entry_datetime :: string

record fusaka_deaths =
  validators :: "fusaka_entry list"
  total_count :: "nat option"
  fusaka_last_updated :: "string option"

record node_score =
  score_node_address :: string
  total_minipools :: int
  active_minipools :: int
  exited_minipools :: int
  node_performance_score :: score
  node_total_earned_rewards :: int
  node_total_missed_rewards :: int
  node_total_penalties :: int
  node_total_lost :: int
  node_total_possible_rewards :: int
  node_last_attestation :: attestation_info
  is_back_up :: bool
  total_balance_eth :: rat
  avg_balance_eth :: rat
  min_balance_eth :: "rat option"
  max_balance_eth :: "rat option"
  node_validators_below_32_eth :: nat

definition calc_performance_score :: "validator_aggregate list \<Rightarrow> string \<Rightarrow> node_aggregate \<Rightarrow> int \<Rightarrow> score" where
  "calc_performance_score performance_data node_addr nd active =
     (if 0 < active then
        (let zero_score_validators =
               filter (\<lambda>record. node_address record = node_addr \<and> performance_score record = Some 0)
                 performance_data
         in if zero_score_validators \<noteq> [] then Score 0
            else Score (py_round2
                   (if 0 < sum_possible_rewards nd
                    then binary64
                           (py_true_divide (sum_earned_rewards nd) (sum_possible_rewards nd) * 100)
                    else 0)))
      else Not_available)"

definition came_back_online :: "attestation_info \<Rightarrow> bool" where
  "came_back_online att =
     (is_found_status (status att) \<and>
      (case epoch att of None \<Rightarrow> False | Some e \<Rightarrow> FUSAKA_EPOCH < e))"

definition fusaka_death_info :: "attestation_info \<Rightarrow> attestation_info" where
  "fusaka_death_info computed =
     \<lparr> epoch = Some FUSAKA_EPOCH,
       timestamp = Some (genesis_timestamp + FUSAKA_EPOCH * 32 * 12),
       datetime = Some (Literal_text FUSAKA_DATETIME),
       age_epochs = age_epochs computed,
       status = ''fusaka_death'' \<rparr>"

definition calc_is_back_up :: "score \<Rightarrow> attestation_info \<Rightarrow> bool" where
  "calc_is_back_up sc att =
     (case sc of
        Not_available \<Rightarrow> False
      | Score p \<Rightarrow>
          (if 0 < p \<and> is_found_status (status att)
           then (case age_epochs att of None \<Rightarrow> False | Some a \<Rightarrow> a \<le> 3)
           else False))"

definition score_node ::
  "validator_aggregate list \<Rightarrow> (string \<Rightarrow> node_aggregate) \<Rightarrow> string set \<Rightarrow> string \<times> int
     \<Rightarrow> node_score \<times> bool" where
  "score_node performance_data node_data fusaka_lookup entry =
     (let node_addr = fst entry;
          total_count_of_node = snd entry;
          nd = node_data node_addr;
          active = int (card (active_validators nd));
          exited = total_count_of_node - active;
          sc = calc_performance_score performance_data node_addr nd active;
          computed = get_node_last_attestation (last_attestations nd);
          tracked = (node_addr \<in> fusaka_lookup);
          recovered = (tracked \<and> came_back_online computed);
          reported = (if tracked \<and> \<not> came_back_online computed
                      then fusaka_death_info computed else computed);
          balances = validator_balances nd
      in (\<lparr> score_node_address = node_addr,
            total_minipools = total_count_of_node,
            active_minipools = active,
            exited_minipools = exited,
            node_performance_score = sc,
            node_total_earned_rewards = sum_earned_rewards nd,
            node_total_missed_rewards = sum_missed_rewards nd,
            node_total_penalties = sum_penalties nd,
            node_total_lost = sum_lost nd,
            node_total_possible_rewards = sum_possible_rewards nd,
            node_last_attestation = reported,
            is_back_up = calc_is_back_up sc reported,
            total_balance_eth = binary64 (binary64 (of_int (total_balance nd)) / 1000000000),
            avg_balance_eth =
              (if balances \<noteq> []
               then binary64 (foldl (\<lambda>acc balance_eth. binary64 (acc + balance_eth)) 0 balances
                              / of_nat (length balances))
               else 0),
            min_balance_eth = (if balances \<noteq> [] then Some (Min (set balances)) else None),
            max_balance_eth = (if balances \<noteq> [] then Some (Max (set balances)) else None),
            node_validators_below_32_eth = validators_below_32_eth nd \<rparr>,
          recovered))"

fun score_nodes ::
  "validator_aggregate list \<Rightarrow> (string \<Rightarrow> node_aggregate) \<Rightarrow> string set \<Rightarrow> (string \<times> int) list
     \<Rightarrow> node_score list \<times> string list" where
  "score_nodes performance_data node_data fusaka_lookup [] = ([], [])"
| "score_nodes performance_data node_data fusaka_lookup (entry # rest) =
     (let (ns, recovered) = score_node performance_data node_data fusaka_lookup entry;
          (node_scores, validators_to_remove) =
             score_nodes performance_data node_data fusaka_lookup rest
      in (ns # node_scores,
          if recovered then fst entry # validators_to_remove else validators_to_remove))"

definition update_fusaka_deaths :: "string \<Rightarrow> string list \<Rightarrow> fusaka_deaths \<Rightarrow> fusaka_deaths" where
  "update_fusaka_deaths now validators_to_remove fd =
     (if validators_to_remove \<noteq> [] then
        (let remaining = filter (\<lambda>v. fusaka_node_address v \<notin> set validators_to_remove) (validators fd)
         in fd \<lparr> validators := remaining,
                 total_count := Some (length remaining),
                 fusaka_last_updated := Some (now @ ''Z'') \<rparr>)
      else fd)"

definition node_sort_key :: "node_score \<Rightarrow> rat" where
  "node_sort_key x = (case node_performance_score x of Not_available \<Rightarrow> - 1 | Score p \<Rightarrow> p)"

definition sort_reverse :: "('a \<Rightarrow> 'k::linorder) \<Rightarrow> 'a list \<Rightarrow> 'a list" where
  "sort_reverse key xs = rev (sort_key key (rev xs))"

datatype threshold = No_filter | All_nodes | Below rat

definition below_threshold :: "rat \<Rightarrow> node_score \<Rightarrow> bool" where
  "below_threshold t node =
     (case node_performance_score node of Not_available \<Rightarrow> False | Score p \<Rightarrow> p < t)"

definition fusaka_or_default :: "fusaka_deaths option \<Rightarrow> fusaka_deaths" where
  "fusaka_or_default fusaka_arg =
     (case fusaka_arg of
        None \<Rightarrow> \<lparr> validators = [], total_count = None, fusaka_last_updated = None \<rparr>
      | Some fd \<Rightarrow> fd)"

definition calculate_node_performance_scores ::
  "string \<Rightarrow> validator_aggregate list \<Rightarrow> rp_validator list \<Rightarrow> threshold \<Rightarrow> fusaka_deaths option
     \<Rightarrow> node_score list \<times> fusaka_deaths" where
  "calculate_node_performance_scores now performance_data all_rp_validators threshold_filter fusaka_arg =
     (let fusaka_deaths = fusaka_or_default fusaka_arg;
          fusaka_lookup = set (map fusaka_node_address (validators fusaka_deaths));
          counts = node_minipool_counts all_rp_validators;
          node_data = group_by_node performance_data (\<lambda>_. new_node_aggregate);
          (node_scores, validators_to_remove) =
             score_nodes performance_data node_data fusaka_lookup counts;
          fusaka_deaths' = update_fusaka_deaths now validators_to_remove fusaka_deaths;
          sorted_scores = sort_reverse node_sort_key node_scores
      in (case threshold_filter of
            No_filter \<Rightarrow> (sorted_scores, fusaka_deaths')
          | All_nodes \<Rightarrow> (sorted_scores, fusaka_deaths')
          | Below t \<Rightarrow> (filter (below_threshold t) sorted_scores, fusaka_deaths')))"

subsection \<open>Window performance aggregation\<close>

record validator =
  validator_val_id :: int
  validator_node_address :: string
  validator_minipool_address :: string
  validator_pubkey :: string

record performance_row =
  row_val_id :: int
  row_total_earned :: "int option"
  row_total_missed :: "int option"
  row_total_penalties :: "int option"
  row_total_epochs :: int
  row_successful_attestations :: int
  row_last_attestation_epoch :: "int option"
  row_val_balance :: "int option"
  row_val_effective_balance :: "int option"

record extended_row =
  ext_val_id :: int
  ext_last_attestation_epoch :: "int option"
  ext_first_epoch_in_db :: int
  ext_last_epoch_in_db :: int

record clickhouse_client =
  retention_query :: "(int \<times> int) option"
  performance_query :: "int list \<Rightarrow> int \<Rightarrow> int \<Rightarrow> performance_row list option"
  extended_query :: "int list \<Rightarrow> int \<Rightarrow> int \<Rightarrow> extended_row list option"

record retention_info =
  oldest_epoch :: "int option"
  newest_epoch :: "int option"
  total_days :: "int option"

definition get_database_retention_info :: "clickhouse_client \<Rightarrow> retention_info" where
  "get_database_retention_info client =
     (case retention_query client of
        None \<Rightarrow> \<lparr> oldest_epoch = None, newest_epoch = None, total_days = None \<rparr>
      | Some (min_epoch, max_epoch) \<Rightarrow>
          \<lparr> oldest_epoch = Some min_epoch, newest_epoch = Some max_epoch,
            total_days = Some (py_int_quotient (max_epoch - min_epoch) 225) \<rparr>)"

definition or0 :: "int option \<Rightarrow> int" where
  "or0 x = (case x of None \<Rightarrow> 0 | Some v \<Rightarrow> v)"

definition attested_info :: "string \<Rightarrow> int \<Rightarrow> int \<Rightarrow> attestation_info" where
  "attested_info tag reference_epoch last_attestation_epoch =
     (let estimated_timestamp = genesis_timestamp + last_attestation_epoch * 32 * 12
      in \<lparr> epoch = Some last_attestation_epoch,
           timestamp = Some estimated_timestamp,
           datetime = Some (Isoformat_of_timestamp estimated_timestamp),
           age_epochs = Some (reference_epoch - last_attestation_epoch),
           status = tag \<rparr>)"

definition extended_info :: "int \<Rightarrow> int \<Rightarrow> extended_row \<Rightarrow> attestation_info" where
  "extended_info oldest newest row =
     (case ext_last_attestation_epoch row of
        Some last_attestation_epoch \<Rightarrow> attested_info ''found_extended'' newest last_attestation_epoch
      | None \<Rightarrow> status_only (older_than_status (py_int_quotient (newest - oldest) 225)))"

definition find_last_attestation_extended ::
  "clickhouse_client \<Rightarrow> int list \<Rightarrow> int \<Rightarrow> int \<Rightarrow> int \<Rightarrow> (int \<rightharpoonup> attestation_info)" where
  "find_last_attestation_extended client val_id_list oldest search_end_epoch newest =
     (case extended_query client val_id_list oldest search_end_epoch of
        None \<Rightarrow> Map.empty
      | Some rows \<Rightarrow>
          fold (\<lambda>row extended_attestations.
                  extended_attestations (ext_val_id row \<mapsto> extended_info oldest newest row))
            rows Map.empty)"

definition validators_with_recent_attestations ::
  "int \<Rightarrow> performance_row list \<Rightarrow> (int \<rightharpoonup> attestation_info)" where
  "validators_with_recent_attestations end_epoch rows =
     fold (\<lambda>row recent.
             (case row_last_attestation_epoch row of
                Some last_attestation_epoch \<Rightarrow>
                  recent (row_val_id row \<mapsto> attested_info ''found'' end_epoch last_attestation_epoch)
              | None \<Rightarrow> recent))
       rows Map.empty"

definition validators_needing_extended_search :: "performance_row list \<Rightarrow> int list" where
  "validators_needing_extended_search rows =
     map row_val_id (filter (\<lambda>row. row_last_attestation_epoch row = None) rows)"

definition extended_search_request ::
  "int option \<Rightarrow> int \<Rightarrow> performance_row list \<Rightarrow> (int list \<times> int \<times> int) option" where
  "extended_search_request oldest start_epoch rows =
     (case oldest of
        None \<Rightarrow> None
      | Some oldest_known \<Rightarrow>
          (if validators_needing_extended_search rows \<noteq> []
           then Some (validators_needing_extended_search rows, oldest_known,
                      (if start_epoch - 1 < oldest_known then oldest_known else start_epoch - 1))
           else None))"

definition fallback_info :: "int option \<Rightarrow> attestation_info" where
  "fallback_info days =
     status_only
       (case days of
          None \<Rightarrow> ''older_than_10_days''
        | Some d \<Rightarrow> (if d \<noteq> 0 then older_than_status d else ''older_than_10_days''))"

definition make_aggregate :: "validator \<Rightarrow> performance_row \<Rightarrow> attestation_info \<Rightarrow> validator_aggregate" where
  "make_aggregate v row last_attestation_info =
     \<lparr> val_id = row_val_id row,
       node_address = validator_node_address v,
       minipool_address = validator_minipool_address v,
       pubkey = validator_pubkey v,
       total_earned_rewards = or0 (row_total_earned row),
       total_missed_rewards = or0 (row_total_missed row),
       total_penalties = or0 (row_total_penalties row),
       total_possible_rewards = or0 (row_total_earned row) + or0 (row_total_missed row),
       total_lost = or0 (row_total_missed row) + or0 (row_total_penalties row),
       total_epochs = row_total_epochs row,
       successful_attestations = row_successful_attestations row,
       performance_score = (if row_last_attestation_epoch row = None then Some 0 else None),
       last_attestation = Some last_attestation_info,
       val_balance = or0 (row_val_balance row),
       val_balance_eth = Some (binary64 (binary64 (of_int (or0 (row_val_balance row))) / 1000000000)),
       val_effective_balance = or0 (row_val_effective_balance row),
       val_effective_balance_eth =
         binary64 (binary64 (of_int (or0 (row_val_effective_balance row))) / 1000000000) \<rparr>"

definition process_row ::
  "validator list \<Rightarrow> (int \<rightharpoonup> attestation_info) \<Rightarrow> (int \<rightharpoonup> attestation_info) \<Rightarrow> int option
     \<Rightarrow> performance_row \<Rightarrow> (int \<times> validator_aggregate) list \<Rightarrow> (int \<times> validator_aggregate) list" where
  "process_row batch recent extended days row validator_aggregates =
     (let last_attestation_info =
            (case recent (row_val_id row) of
               Some info \<Rightarrow> info
             | None \<Rightarrow>
                 (case extended (row_val_id row) of
                    Some info \<Rightarrow> info
                  | None \<Rightarrow> fallback_info days))
      in case find (\<lambda>v. validator_val_id v = row_val_id row) batch of
           None \<Rightarrow> validator_aggregates
         | Some v \<Rightarrow>
             dict_set (row_val_id row) (make_aggregate v row last_attestation_info) validator_aggregates)"

definition process_batch ::
  "clickhouse_client \<Rightarrow> retention_info \<Rightarrow> int \<Rightarrow> int \<Rightarrow> int \<Rightarrow> validator list
     \<Rightarrow> (int \<times> validator_aggregate) list \<Rightarrow> (int \<times> validator_aggregate) list" where
  "process_batch client retention start_epoch end_epoch latest_epoch batch validator_aggregates =
     (case performance_query client (map validator_val_id batch) start_epoch end_epoch of
        None \<Rightarrow> validator_aggregates
      | Some rows \<Rightarrow>
          (let recent = validators_with_recent_attestations end_epoch rows;
               extended =
                 (case extended_search_request (oldest_epoch retention) start_epoch rows of
                    None \<Rightarrow> Map.empty
                  | Some (val_id_list, oldest, search_end_epoch) \<Rightarrow>
                      find_last_attestation_extended client val_id_list oldest search_end_epoch
                        latest_epoch)
           in fold (process_row batch recent extended (total_days retention)) rows
                validator_aggregates))"

definition batches :: "nat \<Rightarrow> 'a list \<Rightarrow> 'a list list" where
  "batches batch_size xs =
     map (\<lambda>k. take batch_size (drop (k * batch_size) xs))
       [0 ..< (length xs + batch_size - 1) div batch_size]"

definition query_attestation_performance ::
  "clickhouse_client \<Rightarrow> validator list \<Rightarrow> int \<Rightarrow> int \<Rightarrow> validator_aggregate list \<times> int \<times> int" where
  "query_attestation_performance client validators_in latest_epoch epochs_to_analyze =
     (let retention = get_database_retention_info client;
          start_epoch = latest_epoch - epochs_to_analyze + 1;
          end_epoch = latest_epoch;
          validator_aggregates =
            fold (process_batch client retention start_epoch end_epoch latest_epoch)
              (batches 1000 validators_in) []
      in (map snd validator_aggregates, start_epoch, end_epoch))"

subsection \<open>Epoch conversion\<close>





subsection \<open>Daily snapshot metrics\<close>

definition EPOCHS_PER_DAY :: int where
  "EPOCHS_PER_DAY = 225"

definition ANALYSIS_PERIOD_EPOCHS :: int where
  "ANALYSIS_PERIOD_EPOCHS = 1575"

record snapshot_performance =
  perf_val_id :: int
  perf_total_earned :: int
  perf_total_missed :: int
  perf_total_penalties :: int
  perf_successful_attestations :: int
  perf_total_epochs :: int
  perf_last_attestation_epoch :: "int option"
  latest_balance :: int

record snapshot_metrics =
  active_minipools_count :: nat
  fusaka_deaths_count :: nat
  below_31_9_eth :: nat
  total_earned_rewards_gwei :: int
  total_missed_rewards_gwei :: int
  total_penalties_gwei :: int
  total_lost_gwei :: int
  total_minipools_count :: nat
  exited_minipools_count :: nat
  epochs_analyzed :: int
  start_epoch_of_window :: int
  end_epoch_of_window :: int

definition has_node :: "(int \<rightharpoonup> string) \<Rightarrow> snapshot_performance \<Rightarrow> bool" where
  "has_node node_assignments perf =
     (case node_assignments (perf_val_id perf) of None \<Rightarrow> False | Some node_addr \<Rightarrow> node_addr \<noteq> [])"

fun financial_totals ::
  "(int \<rightharpoonup> string) \<Rightarrow> snapshot_performance list \<Rightarrow> int \<times> int \<times> int \<Rightarrow> int \<times> int \<times> int" where
  "financial_totals node_assignments [] totals = totals"
| "financial_totals node_assignments (perf # rest) (earned, missed, penalties) =
     financial_totals node_assignments rest
       (if has_node node_assignments perf
        then (earned + perf_total_earned perf, missed + perf_total_missed perf,
              penalties + perf_total_penalties perf)
        else (earned, missed, penalties))"

definition is_active_status :: "string \<Rightarrow> bool" where
  "is_active_status s = (s = ''active_ongoing'' \<or> s = ''active_exiting'' \<or> s = ''active_slashed'')"

definition is_exited_status :: "string \<Rightarrow> bool" where
  "is_exited_status s =
     (s = ''exited_unslashed'' \<or> s = ''exited_slashed'' \<or> s = ''withdrawal_possible''
      \<or> s = ''withdrawal_done'')"

fun count_statuses :: "(int \<times> string) list \<Rightarrow> nat \<times> nat \<Rightarrow> nat \<times> nat" where
  "count_statuses [] counts = counts"
| "count_statuses ((vid, s) # rest) (active, exited) =
     count_statuses rest
       (if is_active_status s then (active + 1, exited)
        else if is_exited_status s then (active, exited + 1)
        else (active, exited))"

fun count_below_31_9_eth :: "snapshot_performance list \<Rightarrow> nat \<Rightarrow> nat" where
  "count_below_31_9_eth [] below = below"
| "count_below_31_9_eth (perf # rest) below =
     (let balance_eth = py_true_divide (latest_balance perf) 1000000000
      in count_below_31_9_eth rest
           (if balance_eth < binary64 (319 / 10) \<and> 0 < balance_eth then below + 1 else below))"

definition calculate_snapshot_metrics ::
  "nat \<Rightarrow> snapshot_performance list \<Rightarrow> (int \<rightharpoonup> string) \<Rightarrow> (int \<times> string) list \<Rightarrow> int
     \<Rightarrow> snapshot_metrics" where
  "calculate_snapshot_metrics fusaka_death_count performance_data node_assignments validator_statuses end_epoch =
     (let (earned_gwei, missed_gwei, penalties_gwei) =
            financial_totals node_assignments performance_data (0, 0, 0);
          (active, exited) = count_statuses validator_statuses (0, 0);
          below = count_below_31_9_eth performance_data 0
      in \<lparr> active_minipools_count = active,
           fusaka_deaths_count = fusaka_death_count,
           below_31_9_eth = below,
           total_earned_rewards_gwei = earned_gwei,
           total_missed_rewards_gwei = missed_gwei,
           total_penalties_gwei = penalties_gwei,
           total_lost_gwei = missed_gwei + penalties_gwei,
           total_minipools_count = active + exited,
           exited_minipools_count = exited,
           epochs_analyzed = ANALYSIS_PERIOD_EPOCHS,
           start_epoch_of_window = end_epoch - ANALYSIS_PERIOD_EPOCHS + 1,
           end_epoch_of_window = end_epoch \<rparr>)"

subsection \<open>Notions used in the statements\<close>

definition counted_below :: "validator_aggregate \<Rightarrow> bool" where
  "counted_below r =
     (case val_balance_eth r of None \<Rightarrow> False | Some b \<Rightarrow> b < binary64 (319 / 10))"

definition fusaka_lookup_of :: "fusaka_deaths option \<Rightarrow> string set" where
  "fusaka_lookup_of fa = set (map fusaka_node_address (validators (fusaka_or_default fa)))"

definition node_data_of :: "validator_aggregate list \<Rightarrow> string \<Rightarrow> node_aggregate" where
  "node_data_of pd = group_by_node pd (\<lambda>_. new_node_aggregate)"

definition node_records :: "validator_aggregate list \<Rightarrow> string \<Rightarrow> validator_aggregate list" where
  "node_records pd a = filter (\<lambda>r. node_address r = a) pd"

definition computed_last_attestation :: "validator_aggregate list \<Rightarrow> string \<Rightarrow> attestation_info" where
  "computed_last_attestation pd a =
     get_node_last_attestation (List.map_filter last_attestation (node_records pd a))"


definition row_info ::
  "(int \<rightharpoonup> attestation_info) \<Rightarrow> (int \<rightharpoonup> attestation_info) \<Rightarrow> int option \<Rightarrow> performance_row
     \<Rightarrow> attestation_info" where
  "row_info recent extended days row =
     (case recent (row_val_id row) of
        Some info \<Rightarrow> info
      | None \<Rightarrow> (case extended (row_val_id row) of Some info \<Rightarrow> info | None \<Rightarrow> fallback_info days))"

definition from_window_row :: "validator_aggregate \<Rightarrow> performance_row \<Rightarrow> bool" where
  "from_window_row agg row =
     (val_id agg = row_val_id row
      \<and> total_earned_rewards agg = or0 (row_total_earned row)
      \<and> total_missed_rewards agg = or0 (row_total_missed row)
      \<and> total_possible_rewards agg = total_earned_rewards agg + total_missed_rewards agg
      \<and> performance_score agg = (if row_last_attestation_epoch row = None then Some 0 else None))"

definition found_attestations :: "attestation_info list \<Rightarrow> attestation_info list" where
  "found_attestations attestations = filter (\<lambda>att. is_found_status (status att)) attestations"

definition valid_attestations :: "attestation_info list \<Rightarrow> attestation_info list" where
  "valid_attestations attestations = filter (\<lambda>att. epoch att \<noteq> None) (found_attestations attestations)"

definition older_statuses :: "attestation_info list \<Rightarrow> attestation_info list" where
  "older_statuses attestations = filter (\<lambda>att. startswith (status att) ''older_than_'') attestations"

definition snapshot_balance_eth :: "snapshot_performance \<Rightarrow> rat" where
  "snapshot_balance_eth perf = py_true_divide (latest_balance perf) 1000000000"


subsection \<open>A worked example\<close>

text \<open>
  Node \<open>N\<close> owns validator 1 (earned 900, missed 100, attesting) and validator 2 (silent in
  the window, zero balance); node \<open>M\<close> owns validator 3, whose last attestation predates the
  fork; node \<open>Q\<close> has a minipool but no active validator; node \<open>X\<close> is tracked but is not in
  the roster.
\<close>

definition example_aggregate ::
  "int \<Rightarrow> string \<Rightarrow> int \<Rightarrow> int \<Rightarrow> rat option \<Rightarrow> attestation_info \<Rightarrow> int \<Rightarrow> validator_aggregate" where
  "example_aggregate i a e m preset att b =
     \<lparr> val_id = i, node_address = a, minipool_address = ''0xminipool'', pubkey = ''0xpubkey'',
       total_earned_rewards = e, total_missed_rewards = m, total_penalties = 0,
       total_possible_rewards = e + m, total_lost = m, total_epochs = 225,
       successful_attestations = 200, performance_score = preset, last_attestation = Some att,
       val_balance = b, val_balance_eth = Some (binary64 (binary64 (rat_of_int b) / 1000000000)),
       val_effective_balance = 32000000000, val_effective_balance_eth = 32 \<rparr>"

definition example_found :: "int \<Rightarrow> int \<Rightarrow> attestation_info" where
  "example_found e age =
     \<lparr> epoch = Some e, timestamp = Some (genesis_timestamp + e * 32 * 12),
       datetime = Some (Isoformat_of_timestamp (genesis_timestamp + e * 32 * 12)),
       age_epochs = Some age, status = ''found'' \<rparr>"

definition example_performance_data :: "validator_aggregate list" where
  "example_performance_data =
     [example_aggregate 1 ''N'' 900 100 None (example_found 411499 1) 32000000000,
      example_aggregate 2 ''N'' 0 0 (Some 0) (status_only ''older_than_45_days'') 0,
      example_aggregate 3 ''M'' 23 137 None (example_found 411000 500) 31000000000]"

definition example_roster :: "rp_validator list" where
  "example_roster =
     [\<lparr> rp_node_address = ''N'', rp_minipool_address = ''m1'', rp_pubkey = ''p1'' \<rparr>,
      \<lparr> rp_node_address = ''M'', rp_minipool_address = ''m3'', rp_pubkey = ''p3'' \<rparr>,
      \<lparr> rp_node_address = ''N'', rp_minipool_address = ''m2'', rp_pubkey = ''p2'' \<rparr>,
      \<lparr> rp_node_address = ''Q'', rp_minipool_address = ''m4'', rp_pubkey = ''p4'' \<rparr>]"

definition example_fusaka_entry :: "string \<Rightarrow> fusaka_entry" where
  "example_fusaka_entry a =
     \<lparr> fusaka_node_address = a, fusaka_epoch = 411392, fusaka_timestamp = 1764798551,
       fusaka_entry_datetime = ''2025-12-03T21:49:11'' \<rparr>"

definition example_fusaka_deaths :: fusaka_deaths where
  "example_fusaka_deaths =
     \<lparr> validators = [example_fusaka_entry ''M'', example_fusaka_entry ''N'', example_fusaka_entry ''X''],
       total_count = Some 3, fusaka_last_updated = None \<rparr>"

definition example_node_scores :: "node_score list" where
  "example_node_scores =
     fst (calculate_node_performance_scores ''2026-01-01T00:00:00'' example_performance_data
            example_roster No_filter (Some example_fusaka_deaths))"

definition node_summary :: "node_score \<Rightarrow> string \<times> int \<times> int \<times> int \<times> score \<times> nat" where
  "node_summary ns =
     (score_node_address ns, total_minipools ns, active_minipools ns, exited_minipools ns,
      node_performance_score ns, node_validators_below_32_eth ns)"

definition example_row :: "int \<Rightarrow> int \<Rightarrow> int \<Rightarrow> int option \<Rightarrow> performance_row" where
  "example_row i e m last_epoch =
     \<lparr> row_val_id = i, row_total_earned = Some e, row_total_missed = Some m,
       row_total_penalties = Some 0, row_total_epochs = 225, row_successful_attestations = 200,
       row_last_attestation_epoch = last_epoch, row_val_balance = Some 32000000000,
       row_val_effective_balance = Some 32000000000 \<rparr>"

definition example_rows :: "performance_row list" where
  "example_rows = [example_row 1 900 100 (Some 411499), example_row 2 0 0 None]"

definition example_validators :: "validator list" where
  "example_validators =
     [\<lparr> validator_val_id = 1, validator_node_address = ''N'',
        validator_minipool_address = ''m1'', validator_pubkey = ''p1'' \<rparr>,
      \<lparr> validator_val_id = 2, validator_node_address = ''N'',
        validator_minipool_address = ''m2'', validator_pubkey = ''p2'' \<rparr>]"

text \<open>A store whose retention query fails, and one whose retention query answers.\<close>

definition example_client :: "(int \<times> int) option \<Rightarrow> clickhouse_client" where
  "example_client retention =
     \<lparr> retention_query = retention,
       performance_query = (\<lambda>ids start_epoch end_epoch. Some example_rows),
       extended_query = (\<lambda>ids oldest search_end. Some []) \<rparr>"

definition example_snapshot_row :: "int \<Rightarrow> int \<Rightarrow> snapshot_performance" where
  "example_snapshot_row i b =
     \<lparr> perf_val_id = i, perf_total_earned = 900, perf_total_missed = 100, perf_total_penalties = 0,
       perf_successful_attestations = 200, perf_total_epochs = 225,
       perf_last_attestation_epoch = None, latest_balance = b \<rparr>"

definition example_snapshot_performance :: "snapshot_performance list" where
  "example_snapshot_performance =
     [example_snapshot_row 1 32000000000, example_snapshot_row 2 0, example_snapshot_row 3 31000000000]"


definition example_older_attestations :: "attestation_info list" where
  "example_older_attestations =
     [status_only ''older_than_10_days'', status_only ''older_than_45_days'',
      status_only ''older_than_9_days'']"

definition example_null_epoch_attestations :: "attestation_info list" where
  "example_null_epoch_attestations =
     [status_only ''older_than_45_days'', status_only ''found_extended'', status_only ''found'']"

definition example_unparsable_attestations :: "attestation_info list" where
  "example_unparsable_attestations =
     [status_only ''older_than_45_days'', status_only (''older_than_'' @ [CHR 0xB2] @ ''_days'')]"

definition example_found_attestations :: "attestation_info list" where
  "example_found_attestations =
     [status_only ''older_than_45_days'', example_found 411000 500, example_found 411499 1]"

section \<open>Properties\<close>

subsection \<open>Snapshot history\<close>

lemma snapshots_append_snapshot:
  "snapshots (append_snapshot now h s) =
     sort_key date (filter (\<lambda>x. date x \<noteq> date s) (snapshots h) @ [s])"
  by (simp add: append_snapshot_def Let_def)

lemma filter_same_date_after_drop:
  "filter (\<lambda>x. date x = d) (filter (\<lambda>x. date x \<noteq> d) xs) = []"
  by (induction xs) auto

lemma sort_key_absorb_sorted_prefix:
  fixes f :: "'a \<Rightarrow> 'k::linorder"
  shows "sort_key f (sort_key f xs @ [s]) = sort_key f (xs @ [s])"
proof (rule properties_for_sort_key [symmetric])
  show "mset (sort_key f (sort_key f xs @ [s])) = mset (xs @ [s])"
    by simp
next
  fix k
  have "filter (\<lambda>x. f k = f x) (sort_key f (sort_key f xs @ [s]))
          = filter (\<lambda>x. f x = f k) (sort_key f (sort_key f xs @ [s]))"
    by (rule filter_cong) auto
  also have "\<dots> = filter (\<lambda>x. f x = f k) (sort_key f xs @ [s])"
    by (rule sort_key_stable)
  also have "\<dots> = filter (\<lambda>x. f x = f k) (sort_key f xs) @ filter (\<lambda>x. f x = f k) [s]"
    by simp
  also have "\<dots> = filter (\<lambda>x. f x = f k) xs @ filter (\<lambda>x. f x = f k) [s]"
    by (simp only: sort_key_stable)
  also have "\<dots> = filter (\<lambda>x. f k = f x) (xs @ [s])"
    by (simp add: eq_commute)
  finally show "filter (\<lambda>x. f k = f x) (sort_key f (sort_key f xs @ [s]))
                  = filter (\<lambda>x. f k = f x) (xs @ [s])" .
next
  show "sorted (map f (sort_key f (sort_key f xs @ [s])))"
    by (rule sorted_sort_key)
qed

lemma drop_date_sort_key:
  "filter (\<lambda>x. date x \<noteq> d) (sort_key date xs) = sort_key date (filter (\<lambda>x. date x \<noteq> d) xs)"
  by (rule filter_sort)

text \<open>
  C3. Appending a snapshot leaves exactly one entry of the snapshot's date in the list,
  namely the appended snapshot; the list is sorted ascending by date; and appending a
  second snapshot of the same date gives the history that appending only the second one
  gives (the stored values are those of the second run).
\<close>

theorem append_snapshot_dedup_sorted_idempotent:
  "filter (\<lambda>x. date x = date s) (snapshots (append_snapshot now h s)) = [s]
   \<and> sorted (map date (snapshots (append_snapshot now h s)))
   \<and> (date s1 = date s2 \<longrightarrow>
        append_snapshot now2 (append_snapshot now1 h s1) s2 = append_snapshot now2 h s2)"
proof (intro conjI impI)
  show "filter (\<lambda>x. date x = date s) (snapshots (append_snapshot now h s)) = [s]"
    by (simp add: snapshots_append_snapshot sort_key_stable filter_same_date_after_drop)
next
  show "sorted (map date (snapshots (append_snapshot now h s)))"
    by (simp only: snapshots_append_snapshot sorted_sort_key)
next
  assume same: "date s1 = date s2"
  let ?d = "date s2"
  let ?keep = "filter (\<lambda>x. date x \<noteq> ?d)"
  have "?keep (snapshots (append_snapshot now1 h s1))
          = sort_key date (?keep (?keep (snapshots h) @ [s1]))"
    using same by (simp only: snapshots_append_snapshot drop_date_sort_key)
  also have "\<dots> = sort_key date (?keep (snapshots h))"
    using same by simp
  finally have kept: "?keep (snapshots (append_snapshot now1 h s1))
                        = sort_key date (?keep (snapshots h))" .
  have "sort_key date (?keep (snapshots (append_snapshot now1 h s1)) @ [s2])
          = sort_key date (?keep (snapshots h) @ [s2])"
    by (simp only: kept sort_key_absorb_sorted_prefix)
  then have lists: "snapshots (append_snapshot now2 (append_snapshot now1 h s1) s2)
                      = snapshots (append_snapshot now2 h s2)"
    by (simp only: snapshots_append_snapshot)
  have meta: "metadata (append_snapshot now (append_snapshot now1 h s1) s)
                = (metadata h) \<lparr> last_updated := now,
                     total_snapshots := length (snapshots (append_snapshot now (append_snapshot now1 h s1) s)) \<rparr>"
    for now s
    by (simp add: append_snapshot_def Let_def)
  have meta': "metadata (append_snapshot now h s)
                = (metadata h) \<lparr> last_updated := now,
                     total_snapshots := length (snapshots (append_snapshot now h s)) \<rparr>"
    for now s
    by (simp add: append_snapshot_def Let_def)
  have more: "stats_history.more (append_snapshot now h' s) = stats_history.more h'"
    for now s and h' :: "'a stats_history"
    by (simp add: append_snapshot_def Let_def)
  show "append_snapshot now2 (append_snapshot now1 h s1) s2 = append_snapshot now2 h s2"
    by (rule stats_history.equality) (simp_all only: lists meta meta' more)
qed

theorem append_snapshot_dedup_sorted_idempotent_witness:
  "(let h = \<lparr> metadata = \<lparr> created_at = ''t0'', last_updated = ''t0'', total_snapshots = 2,
                              description = ''history'' \<rparr>,
              snapshots = [\<lparr> date = ''2024-03-14'', payload = (1::nat) \<rparr>,
                           \<lparr> date = ''2024-03-16'', payload = 2 \<rparr>] \<rparr>;
        s1 = \<lparr> date = ''2024-03-15'', payload = (7::nat) \<rparr>;
        s2 = \<lparr> date = ''2024-03-15'', payload = (9::nat) \<rparr>
    in date s1 = date s2
       \<and> append_snapshot ''t2'' (append_snapshot ''t1'' h s1) s2 = append_snapshot ''t2'' h s2
       \<and> filter (\<lambda>x. date x = date s2) (snapshots (append_snapshot ''t2'' h s2)) = [s2])"
  using append_snapshot_dedup_sorted_idempotent
    [where s = "\<lparr> date = ''2024-03-15'', payload = (9::nat) \<rparr>" and now = "''t2''"
       and h = "\<lparr> metadata = \<lparr> created_at = ''t0'', last_updated = ''t0'', total_snapshots = 2,
                        description = ''history'' \<rparr>,
           snapshots = [\<lparr> date = ''2024-03-14'', payload = (1::nat) \<rparr>,
                        \<lparr> date = ''2024-03-16'', payload = 2 \<rparr>] \<rparr>"
       and ?s1.0 = "\<lparr> date = ''2024-03-15'', payload = (7::nat) \<rparr>"
       and ?s2.0 = "\<lparr> date = ''2024-03-15'', payload = (9::nat) \<rparr>"
       and ?now2.0 = "''t2''" and ?now1.0 = "''t1''"]
  by (simp add: Let_def)

text \<open>
  C9. After \<open>append_snapshot\<close> the metadata field \<open>total_snapshots\<close> is the length
  of the snapshots list.
\<close>

theorem append_snapshot_total_snapshots:
  "total_snapshots (metadata (append_snapshot now h s)) = length (snapshots (append_snapshot now h s))"
  by (simp add: append_snapshot_def Let_def)

lemma group_by_node_fold:
  "group_by_node rs node_data a = fold add_record (filter (\<lambda>r. node_address r = a) rs) (node_data a)"
  by (induction rs arbitrary: node_data) auto

lemma add_balance_keeps [simp]:
  "active_validators (add_balance r nd) = active_validators nd"
  "sum_earned_rewards (add_balance r nd) = sum_earned_rewards nd"
  "sum_missed_rewards (add_balance r nd) = sum_missed_rewards nd"
  "sum_possible_rewards (add_balance r nd) = sum_possible_rewards nd"
  "last_attestations (add_balance r nd) = last_attestations nd"
  by (simp_all add: add_balance_def split: option.splits)

lemma fold_add_record_active:
  "active_validators (fold add_record rs nd) = active_validators nd \<union> val_id ` set rs"
  by (induction rs arbitrary: nd) (auto simp: add_record_def)

lemma fold_add_record_earned:
  "sum_earned_rewards (fold add_record rs nd) = sum_earned_rewards nd + sum_list (map total_earned_rewards rs)"
  by (induction rs arbitrary: nd) (auto simp: add_record_def)

lemma fold_add_record_missed:
  "sum_missed_rewards (fold add_record rs nd) = sum_missed_rewards nd + sum_list (map total_missed_rewards rs)"
  by (induction rs arbitrary: nd) (auto simp: add_record_def)

lemma fold_add_record_possible:
  "sum_possible_rewards (fold add_record rs nd) = sum_possible_rewards nd + sum_list (map total_possible_rewards rs)"
  by (induction rs arbitrary: nd) (auto simp: add_record_def)

lemma fold_add_record_attestations:
  "last_attestations (fold add_record rs nd) = last_attestations nd @ List.map_filter last_attestation rs"
  by (induction rs arbitrary: nd) (auto simp: add_record_def List.map_filter_simps split: option.splits)

lemma fold_add_record_below:
  "validators_below_32_eth (fold add_record rs nd) = validators_below_32_eth nd + length (filter counted_below rs)"
  by (induction rs arbitrary: nd) (auto simp: add_record_def add_balance_def counted_below_def split: option.splits)

lemma map_of_count_total:
  "map_of (count_total a kvs) k =
     (if k = a then Some (case map_of kvs a of None \<Rightarrow> 1 | Some n \<Rightarrow> n + 1) else map_of kvs k)"
  by (induction a kvs rule: count_total.induct) auto

lemma keys_count_total: "fst ` set (count_total a kvs) = insert a (fst ` set kvs)"
  by (induction a kvs rule: count_total.induct) auto

lemma distinct_count_total: "distinct (map fst kvs) \<Longrightarrow> distinct (map fst (count_total a kvs))"
proof (induction a kvs rule: count_total.induct)
  case (1 node_addr)
  then show ?case by simp
next
  case (2 node_addr k n rest)
  show ?case
  proof (cases "k = node_addr")
    case True
    with 2 show ?thesis by simp
  next
    case False
    with 2 have "k \<notin> fst ` set (count_total node_addr rest)"
      by (simp add: keys_count_total)
    with 2 False show ?thesis by simp
  qed
qed

lemma fold_count_total_keys:
  "fst ` set (fold (\<lambda>v. count_total (rp_node_address v)) vs acc) = fst ` set acc \<union> rp_node_address ` set vs"
  by (induction vs arbitrary: acc) (simp_all add: keys_count_total)

lemma fold_count_total_distinct:
  "distinct (map fst acc) \<Longrightarrow> distinct (map fst (fold (\<lambda>v. count_total (rp_node_address v)) vs acc))"
  by (induction vs arbitrary: acc) (simp_all add: distinct_count_total)

lemma fold_count_total_map_of:
  "map_of (fold (\<lambda>v. count_total (rp_node_address v)) vs acc) k =
     (if k \<in> rp_node_address ` set vs
      then Some ((case map_of acc k of None \<Rightarrow> 0 | Some n \<Rightarrow> n)
                  + int (length (filter (\<lambda>v. rp_node_address v = k) vs)))
      else map_of acc k)"
proof (induction vs arbitrary: acc)
  case Nil
  then show ?case by simp
next
  case (Cons v vs)
  show ?case
    by (auto simp: Cons.IH map_of_count_total filter_empty_conv image_iff split: option.splits)
qed

lemma node_minipool_counts_entry:
  assumes "(a, n) \<in> set (node_minipool_counts roster)"
  shows "n = int (length (filter (\<lambda>v. rp_node_address v = a) roster)) \<and> a \<in> rp_node_address ` set roster"
proof -
  have d: "distinct (map fst (node_minipool_counts roster))"
    unfolding node_minipool_counts_def by (rule fold_count_total_distinct) simp
  from assms d have m: "map_of (node_minipool_counts roster) a = Some n"
    by simp
  have k: "a \<in> fst ` set (node_minipool_counts roster)"
    using assms by force
  then have mem: "a \<in> rp_node_address ` set roster"
    unfolding node_minipool_counts_def fold_count_total_keys by simp
  with m show ?thesis
    unfolding node_minipool_counts_def fold_count_total_map_of by simp
qed

lemma node_minipool_counts_keys:
  "fst ` set (node_minipool_counts roster) = rp_node_address ` set roster"
  unfolding node_minipool_counts_def fold_count_total_keys by simp

lemma node_minipool_counts_distinct: "distinct (map fst (node_minipool_counts roster))"
  unfolding node_minipool_counts_def by (rule fold_count_total_distinct) simp

lemma score_nodes_map:
  "score_nodes pd nd fl entries =
     (map (\<lambda>e. fst (score_node pd nd fl e)) entries,
      map fst (filter (\<lambda>e. snd (score_node pd nd fl e)) entries))"
  by (induction entries) (auto simp: Let_def split: prod.splits)

lemma set_sort_reverse [simp]: "set (sort_reverse key xs) = set xs"
  by (simp add: sort_reverse_def)

lemma scored_nodes_unfold:
  "calculate_node_performance_scores now pd roster thr fa =
     (let all_scores = sort_reverse node_sort_key
            (map (\<lambda>e. fst (score_node pd (node_data_of pd) (fusaka_lookup_of fa) e))
               (node_minipool_counts roster));
          removed = map fst (filter (\<lambda>e. snd (score_node pd (node_data_of pd) (fusaka_lookup_of fa) e))
               (node_minipool_counts roster))
      in (case thr of Below t \<Rightarrow> filter (below_threshold t) all_scores | _ \<Rightarrow> all_scores,
          update_fusaka_deaths now removed (fusaka_or_default fa)))"
  by (simp add: calculate_node_performance_scores_def Let_def score_nodes_map fusaka_lookup_of_def
      node_data_of_def split: threshold.splits)

lemma reported_node:
  assumes "ns \<in> set (fst (calculate_node_performance_scores now pd roster thr fa))"
  obtains n where "(score_node_address ns, n) \<in> set (node_minipool_counts roster)"
    and "ns = fst (score_node pd (node_data_of pd) (fusaka_lookup_of fa) (score_node_address ns, n))"
proof -
  from assms obtain e where e: "e \<in> set (node_minipool_counts roster)"
    and ns: "ns = fst (score_node pd (node_data_of pd) (fusaka_lookup_of fa) e)"
    by (auto simp: scored_nodes_unfold Let_def split: threshold.splits)
  have "score_node_address ns = fst e"
    by (simp add: ns score_node_def Let_def)
  with e ns show thesis
    by (intro that [of "snd e"]) simp_all
qed

lemma node_data_of_fold:
  "node_data_of pd a = fold add_record (filter (\<lambda>r. node_address r = a) pd) new_node_aggregate"
  by (simp add: node_data_of_def group_by_node_fold)

lemma node_active_set:
  "active_validators (node_data_of pd a) = val_id ` {r \<in> set pd. node_address r = a}"
  by (simp add: node_data_of_fold fold_add_record_active new_node_aggregate_def) 

text \<open>
  C5. Every node record that the rollup returns satisfies
  \<open>active_minipools + exited_minipools = total_minipools\<close>, where \<open>total_minipools\<close> is the
  number of roster validators of the node and \<open>active_minipools\<close> is the number of distinct
  validator ids among the node's performance records.
\<close>

theorem minipool_counts_add_up:
  assumes "ns \<in> set (fst (calculate_node_performance_scores now pd roster thr fa))"
  shows "active_minipools ns + exited_minipools ns = total_minipools ns
       \<and> total_minipools ns
           = int (length (filter (\<lambda>v. rp_node_address v = score_node_address ns) roster))
       \<and> active_minipools ns
           = int (card (val_id ` {r \<in> set pd. node_address r = score_node_address ns}))"
proof -
  from assms obtain n where mem: "(score_node_address ns, n) \<in> set (node_minipool_counts roster)"
    and ns: "ns = fst (score_node pd (node_data_of pd) (fusaka_lookup_of fa) (score_node_address ns, n))"
    by (rule reported_node)
  let ?a = "score_node_address ns"
  have total: "total_minipools ns = n"
    by (subst ns) (simp add: score_node_def Let_def)
  have active: "active_minipools ns = int (card (active_validators (node_data_of pd ?a)))"
    by (subst ns) (simp add: score_node_def Let_def)
  have exited: "exited_minipools ns = n - int (card (active_validators (node_data_of pd ?a)))"
    by (subst ns) (simp add: score_node_def Let_def)
  from node_minipool_counts_entry [OF mem]
  have n: "n = int (length (filter (\<lambda>v. rp_node_address v = ?a) roster))" by simp
  show ?thesis
    by (simp add: total active exited n node_active_set)
qed

lemma sum_possible_earned_missed:
  "\<forall>r\<in>set rs. total_possible_rewards r = total_earned_rewards r + total_missed_rewards r \<Longrightarrow>
     sum_list (map total_possible_rewards rs)
       = sum_list (map total_earned_rewards rs) + sum_list (map total_missed_rewards rs)"
  by (induction rs) auto

lemma node_score_value:
  assumes "ns \<in> set (fst (calculate_node_performance_scores now pd roster thr fa))"
  shows "node_performance_score ns
           = calc_performance_score pd (score_node_address ns) (node_data_of pd (score_node_address ns))
               (active_minipools ns)"
proof -
  from assms obtain n where
    ns: "ns = fst (score_node pd (node_data_of pd) (fusaka_lookup_of fa) (score_node_address ns, n))"
    by (rule reported_node)
  show ?thesis
    by (subst ns, subst (3) ns) (simp add: score_node_def Let_def)
qed

lemma binary64_zero [simp]: "binary64 0 = 0"
  by (simp add: binary64_def)

lemma round_half_even_zero [simp]: "round_half_even 0 = 0"
  by (simp add: round_half_even_def)

lemma py_round2_zero [simp]: "py_round2 0 = 0"
  by (simp add: py_round2_def)

lemma round_half_even_near: "\<bar>of_int (round_half_even x) - x\<bar> \<le> 1 / 2"
proof -
  have "of_int \<lfloor>x\<rfloor> \<le> x" and "x < of_int \<lfloor>x\<rfloor> + 1"
    by linarith+
  then show ?thesis
    by (auto simp: round_half_even_def Let_def)
qed

lemma py_round2_nearest_decimal:
  "\<exists>k. py_round2 x = binary64 (of_int k / 100) \<and> \<bar>of_int k / 100 - x\<bar> \<le> 1 / 200"
proof (intro exI conjI)
  show "py_round2 x = binary64 (of_int (round_half_even (x * 100)) / 100)"
    by (simp add: py_round2_def)
next
  from round_half_even_near [of "x * 100"]
  show "\<bar>of_int (round_half_even (x * 100)) / 100 - x\<bar> \<le> 1 / 200"
    by (simp add: abs_le_iff field_simps)
qed

lemma node_score_formula:
  assumes rep: "ns \<in> set (fst (calculate_node_performance_scores now pd roster thr fa))"
    and act: "0 < active_minipools ns"
    and wf: "\<forall>r\<in>set pd. total_possible_rewards r = total_earned_rewards r + total_missed_rewards r"
  shows "node_performance_score ns =
           (let rs = node_records pd (score_node_address ns);
                total_earned = sum_list (map total_earned_rewards rs);
                total_missed = sum_list (map total_missed_rewards rs)
            in if \<exists>r\<in>set rs. performance_score r = Some 0 then Score 0
               else if 0 < total_earned + total_missed
                    then Score (py_round2 (binary64
                           (py_true_divide total_earned (total_earned + total_missed) * 100)))
                    else Score 0)"
proof -
  let ?a = "score_node_address ns"
  let ?rs = "node_records pd ?a"
  let ?E = "sum_list (map total_earned_rewards ?rs)"
  let ?M = "sum_list (map total_missed_rewards ?rs)"
  have wf': "\<forall>r\<in>set ?rs. total_possible_rewards r = total_earned_rewards r + total_missed_rewards r"
    using wf by (simp add: node_records_def)
  from sum_possible_earned_missed [OF wf']
  have poss: "sum_list (map total_possible_rewards ?rs) = ?E + ?M" .
  have earned: "sum_earned_rewards (node_data_of pd ?a) = ?E"
    by (simp add: node_data_of_fold fold_add_record_earned new_node_aggregate_def node_records_def)
  have possible: "sum_possible_rewards (node_data_of pd ?a) = ?E + ?M"
    using poss
    by (simp add: node_data_of_fold fold_add_record_possible new_node_aggregate_def node_records_def)
  have zero: "(filter (\<lambda>r. node_address r = ?a \<and> performance_score r = Some 0) pd \<noteq> [])
                = (\<exists>r\<in>set ?rs. performance_score r = Some 0)"
    by (auto simp: filter_empty_conv node_records_def)
  show ?thesis
    unfolding node_score_value [OF rep] calc_performance_score_def Let_def
    using act by (simp only: earned possible zero py_round2_zero if_True if_False split: if_splits) auto
qed

lemma example_scores_addresses: "map score_node_address example_node_scores = [''M'', ''N'', ''Q'']"
  by code_simp

theorem minipool_counts_add_up_witness:
  "example_node_scores ! 1 \<in> set example_node_scores
   \<and> score_node_address (example_node_scores ! 1) = ''N''
   \<and> active_minipools (example_node_scores ! 1) + exited_minipools (example_node_scores ! 1)
       = total_minipools (example_node_scores ! 1)
   \<and> total_minipools (example_node_scores ! 1) = 2
   \<and> active_minipools (example_node_scores ! 1) = 2"
proof -
  have mem: "example_node_scores ! 1 \<in> set example_node_scores"
    by code_simp
  have addr: "score_node_address (example_node_scores ! 1) = ''N''"
    by code_simp
  have roster: "int (length (filter (\<lambda>v. rp_node_address v = ''N'') example_roster)) = 2"
    by code_simp
  have active: "int (card (val_id ` {r \<in> set example_performance_data. node_address r = ''N''})) = 2"
    by code_simp
  from minipool_counts_add_up [OF mem [unfolded example_node_scores_def]]
  show ?thesis
    using mem addr roster active by (simp add: example_node_scores_def)
qed

subsection \<open>Fusaka death tracker\<close>

lemma node_data_attestations:
  "last_attestations (node_data_of pd a) = List.map_filter last_attestation (node_records pd a)"
  by (simp add: node_data_of_fold fold_add_record_attestations new_node_aggregate_def node_records_def)

lemma computed_last_attestation_node_data:
  "get_node_last_attestation (last_attestations (node_data_of pd a)) = computed_last_attestation pd a"
  by (simp add: computed_last_attestation_def node_data_attestations)

lemma score_node_recovered:
  "snd (score_node pd (node_data_of pd) fl e)
     = (fst e \<in> fl \<and> came_back_online (computed_last_attestation pd (fst e)))"
  by (simp add: score_node_def Let_def computed_last_attestation_node_data)

lemma score_node_last_attestation:
  "node_last_attestation (fst (score_node pd (node_data_of pd) fl e))
     = (if fst e \<in> fl \<and> \<not> came_back_online (computed_last_attestation pd (fst e))
        then fusaka_death_info (computed_last_attestation pd (fst e))
        else computed_last_attestation pd (fst e))"
  by (simp add: score_node_def Let_def computed_last_attestation_node_data)

lemma score_node_address [simp]:
  "score_node_address (fst (score_node pd nd fl e)) = fst e"
  by (simp add: score_node_def Let_def)

lemma validators_update_fusaka_deaths:
  "validators (update_fusaka_deaths now removed fd)
     = filter (\<lambda>v. fusaka_node_address v \<notin> set removed) (validators fd)"
  by (simp add: update_fusaka_deaths_def Let_def)

lemma removed_nodes:
  "set (map fst (filter (\<lambda>e. snd (score_node pd (node_data_of pd) fl e)) (node_minipool_counts roster)))
     = {a. a \<in> rp_node_address ` set roster \<and> a \<in> fl
           \<and> came_back_online (computed_last_attestation pd a)}"
proof -
  have "set (map fst (filter (\<lambda>e. snd (score_node pd (node_data_of pd) fl e)) (node_minipool_counts roster)))
          = {a. a \<in> fst ` set (node_minipool_counts roster) \<and> a \<in> fl
                \<and> came_back_online (computed_last_attestation pd a)}"
    by (auto simp: score_node_recovered image_iff)
  then show ?thesis
    by (simp only: node_minipool_counts_keys)
qed

lemma fusaka_validators_after:
  "validators (snd (calculate_node_performance_scores now pd roster thr (Some fd)))
     = filter (\<lambda>v. \<not> (fusaka_node_address v \<in> rp_node_address ` set roster
                       \<and> came_back_online (computed_last_attestation pd (fusaka_node_address v))))
         (validators fd)"
proof -
  have lookup: "fusaka_lookup_of (Some fd) = fusaka_node_address ` set (validators fd)"
    by (simp add: fusaka_lookup_of_def fusaka_or_default_def)
  have "validators (snd (calculate_node_performance_scores now pd roster thr (Some fd)))
          = filter (\<lambda>v. fusaka_node_address v \<notin>
                {a. a \<in> rp_node_address ` set roster \<and> a \<in> fusaka_lookup_of (Some fd)
                    \<and> came_back_online (computed_last_attestation pd a)})
              (validators fd)"
    by (simp only: scored_nodes_unfold Let_def snd_conv validators_update_fusaka_deaths
        removed_nodes fusaka_or_default_def option.case)
  also have "\<dots> = filter (\<lambda>v. \<not> (fusaka_node_address v \<in> rp_node_address ` set roster
                       \<and> came_back_online (computed_last_attestation pd (fusaka_node_address v))))
         (validators fd)"
    by (rule filter_cong) (auto simp: lookup)
  finally show ?thesis .
qed

lemma reported_last_attestation:
  assumes "ns \<in> set (fst (calculate_node_performance_scores now pd roster thr fa))"
  shows "node_last_attestation ns
     = (if score_node_address ns \<in> fusaka_lookup_of fa
            \<and> \<not> came_back_online (computed_last_attestation pd (score_node_address ns))
        then fusaka_death_info (computed_last_attestation pd (score_node_address ns))
        else computed_last_attestation pd (score_node_address ns))"
proof -
  from assms obtain n where
    ns: "ns = fst (score_node pd (node_data_of pd) (fusaka_lookup_of fa) (score_node_address ns, n))"
    by (rule reported_node)
  show ?thesis
    by (subst ns) (simp add: score_node_last_attestation)
qed

lemma length_filter_sort_reverse:
  "length (filter P (sort_reverse key xs)) = length (filter P xs)"
proof -
  have "mset (filter P (sort_reverse key xs)) = mset (filter P xs)"
    by (simp add: sort_reverse_def)
  then show ?thesis
    by (metis size_mset)
qed

lemma one_entry_per_key:
  assumes "distinct (map fst kvs)" and "a \<in> fst ` set kvs"
  shows "length (filter (\<lambda>e. fst e = a) kvs) = 1"
  using assms
proof (induction kvs)
  case Nil
  then show ?case by simp
next
  case (Cons kv kvs)
  show ?case
  proof (cases "fst kv = a")
    case True
    with Cons.prems have "a \<notin> fst ` set kvs" by auto
    then have "filter (\<lambda>e. fst e = a) kvs = []"
      by (auto simp: filter_empty_conv)
    with True show ?thesis by simp
  next
    case False
    with Cons show ?thesis by auto
  qed
qed

lemma one_record_per_roster_node:
  assumes "a \<in> rp_node_address ` set roster" and "thr = No_filter \<or> thr = All_nodes"
  shows "length (filter (\<lambda>ns. score_node_address ns = a)
                  (fst (calculate_node_performance_scores now pd roster thr fa))) = 1"
proof -
  let ?f = "\<lambda>e. fst (score_node pd (node_data_of pd) (fusaka_lookup_of fa) e)"
  have "fst (calculate_node_performance_scores now pd roster thr fa)
          = sort_reverse node_sort_key (map ?f (node_minipool_counts roster))"
    using assms(2) by (auto simp: scored_nodes_unfold Let_def)
  then have "length (filter (\<lambda>ns. score_node_address ns = a)
                  (fst (calculate_node_performance_scores now pd roster thr fa)))
        = length (filter (\<lambda>ns. score_node_address ns = a) (map ?f (node_minipool_counts roster)))"
    by (simp only: length_filter_sort_reverse)
  also have "\<dots> = length (filter (\<lambda>e. fst e = a) (node_minipool_counts roster))"
    by (simp add: filter_map comp_def)
  also have "\<dots> = 1"
    using assms(1)
    by (intro one_entry_per_key node_minipool_counts_distinct) (simp add: node_minipool_counts_keys)
  finally show ?thesis .
qed

lemma came_back_online_iff:
  "came_back_online c \<longleftrightarrow>
     (status c = ''found'' \<or> status c = ''found_extended'') \<and> (\<exists>e. epoch c = Some e \<and> 411392 < e)"
  by (auto simp: came_back_online_def is_found_status_def FUSAKA_EPOCH_def split: option.splits)

lemma fusaka_death_info_eq:
  "fusaka_death_info c =
     \<lparr> epoch = Some 411392, timestamp = Some 1764798551,
       datetime = Some (Literal_text ''2025-12-03T21:49:11''),
       age_epochs = age_epochs c, status = ''fusaka_death'' \<rparr>"
  by (simp add: fusaka_death_info_def FUSAKA_EPOCH_def genesis_timestamp_def FUSAKA_DATETIME_def)

text \<open>
  C2. For a node that is in the persistent Fusaka set when the rollup starts and owns a
  minipool in the roster: if the descriptor computed from its validators has status
  \<open>found\<close> or \<open>found_extended\<close> and an epoch above 411392, the node is gone from the set
  that the rollup returns and every record reported for it carries the computed descriptor;
  otherwise the node is still in the returned set and every record reported for it carries
  the \<open>fusaka_death\<close> descriptor pinned at epoch 411392 (the age field is the computed one).
  Without a threshold filter exactly one record is reported for the node. The returned set
  is the given one without the entries of the recovered roster nodes: nothing is added and
  nothing else is removed.
\<close>

theorem fusaka_death_tracker:
  assumes tracked: "a \<in> fusaka_node_address ` set (validators fd)"
    and in_roster: "a \<in> rp_node_address ` set roster"
  shows "let computed = computed_last_attestation pd a;
             recovered = ((status computed = ''found'' \<or> status computed = ''found_extended'')
                          \<and> (\<exists>e. epoch computed = Some e \<and> 411392 < e));
             result = calculate_node_performance_scores now pd roster thr (Some fd);
             reported = filter (\<lambda>ns. score_node_address ns = a) (fst result)
         in (recovered \<longrightarrow>
               a \<notin> fusaka_node_address ` set (validators (snd result))
               \<and> (\<forall>ns\<in>set reported. node_last_attestation ns = computed))
          \<and> (\<not> recovered \<longrightarrow>
               a \<in> fusaka_node_address ` set (validators (snd result))
               \<and> (\<forall>ns\<in>set reported. node_last_attestation ns =
                     \<lparr> epoch = Some 411392, timestamp = Some 1764798551,
                       datetime = Some (Literal_text ''2025-12-03T21:49:11''),
                       age_epochs = age_epochs computed, status = ''fusaka_death'' \<rparr>))
          \<and> (thr = No_filter \<or> thr = All_nodes \<longrightarrow> length reported = 1)
          \<and> validators (snd result)
              = filter (\<lambda>v. \<not> (fusaka_node_address v \<in> rp_node_address ` set roster
                               \<and> came_back_online (computed_last_attestation pd (fusaka_node_address v))))
                  (validators fd)"
proof -
  let ?c = "computed_last_attestation pd a"
  let ?result = "calculate_node_performance_scores now pd roster thr (Some fd)"
  have lookup: "a \<in> fusaka_lookup_of (Some fd)"
    using tracked by (simp add: fusaka_lookup_of_def fusaka_or_default_def)
  have after: "fusaka_node_address ` set (validators (snd ?result))
                 = {b \<in> fusaka_node_address ` set (validators fd).
                      \<not> (b \<in> rp_node_address ` set roster
                         \<and> came_back_online (computed_last_attestation pd b))}"
    unfolding fusaka_validators_after by (auto simp: image_iff)
  have gone: "a \<notin> fusaka_node_address ` set (validators (snd ?result))" if "came_back_online ?c"
    unfolding after using that in_roster by simp
  have stays: "a \<in> fusaka_node_address ` set (validators (snd ?result))" if "\<not> came_back_online ?c"
    unfolding after using that tracked by simp
  have desc: "node_last_attestation ns
                = (if came_back_online ?c then ?c else fusaka_death_info ?c)"
    if "ns \<in> set (fst ?result)" and "score_node_address ns = a" for ns
    using reported_last_attestation [OF that(1)] that(2) lookup by simp
  have one: "thr = No_filter \<or> thr = All_nodes \<Longrightarrow>
      length (filter (\<lambda>ns. score_node_address ns = a) (fst ?result)) = 1"
    by (rule one_record_per_roster_node [OF in_roster])
  show ?thesis
    unfolding Let_def came_back_online_iff [symmetric] fusaka_death_info_eq [symmetric]
  proof (intro conjI impI ballI)
    assume "came_back_online ?c"
    then show "a \<notin> fusaka_node_address ` set (validators (snd ?result))" by (rule gone)
  next
    fix ns
    assume "came_back_online ?c" and "ns \<in> set (filter (\<lambda>ns. score_node_address ns = a) (fst ?result))"
    then show "node_last_attestation ns = ?c" using desc [of ns] by simp
  next
    assume "\<not> came_back_online ?c"
    then show "a \<in> fusaka_node_address ` set (validators (snd ?result))" by (rule stays)
  next
    fix ns
    assume "\<not> came_back_online ?c" and "ns \<in> set (filter (\<lambda>ns. score_node_address ns = a) (fst ?result))"
    then show "node_last_attestation ns = fusaka_death_info ?c" using desc [of ns] by simp
  next
    assume "thr = No_filter \<or> thr = All_nodes"
    then show "length (filter (\<lambda>ns. score_node_address ns = a) (fst ?result)) = 1" by (rule one)
  next
    show "validators (snd ?result)
              = filter (\<lambda>v. \<not> (fusaka_node_address v \<in> rp_node_address ` set roster
                               \<and> came_back_online (computed_last_attestation pd (fusaka_node_address v))))
                  (validators fd)"
      by (rule fusaka_validators_after)
  qed
qed

theorem fusaka_death_tracker_witness:
  "''M'' \<in> fusaka_node_address ` set (validators example_fusaka_deaths)
   \<and> ''M'' \<in> rp_node_address ` set example_roster
   \<and> ''M'' \<in> fusaka_node_address ` set (validators (snd
        (calculate_node_performance_scores ''2026-01-01T00:00:00'' example_performance_data
           example_roster No_filter (Some example_fusaka_deaths))))
   \<and> list_all (\<lambda>ns. node_last_attestation ns =
           \<lparr> epoch = Some 411392, timestamp = Some 1764798551,
             datetime = Some (Literal_text ''2025-12-03T21:49:11''),
             age_epochs = Some 500, status = ''fusaka_death'' \<rparr>)
        (filter (\<lambda>ns. score_node_address ns = ''M'') (fst
          (calculate_node_performance_scores ''2026-01-01T00:00:00'' example_performance_data
             example_roster No_filter (Some example_fusaka_deaths))))
   \<and> ''N'' \<in> fusaka_node_address ` set (validators example_fusaka_deaths)
   \<and> ''N'' \<in> rp_node_address ` set example_roster
   \<and> ''N'' \<notin> fusaka_node_address ` set (validators (snd
        (calculate_node_performance_scores ''2026-01-01T00:00:00'' example_performance_data
           example_roster No_filter (Some example_fusaka_deaths))))"
proof -
  have tracked_M: "''M'' \<in> fusaka_node_address ` set (validators example_fusaka_deaths)"
    and tracked_N: "''N'' \<in> fusaka_node_address ` set (validators example_fusaka_deaths)"
    by code_simp+
  have roster_M: "''M'' \<in> rp_node_address ` set example_roster"
    and roster_N: "''N'' \<in> rp_node_address ` set example_roster"
    by code_simp+
  have computed_M: "computed_last_attestation example_performance_data ''M'' = example_found 411000 500"
    by code_simp
  have computed_N: "computed_last_attestation example_performance_data ''N'' = example_found 411499 1"
    by code_simp
  have not_recovered_M:
    "\<not> ((status (example_found 411000 500) = ''found''
          \<or> status (example_found 411000 500) = ''found_extended'')
         \<and> (\<exists>e. epoch (example_found 411000 500) = Some e \<and> 411392 < e))"
    by (simp add: example_found_def)
  have recovered_N:
    "(status (example_found 411499 1) = ''found''
          \<or> status (example_found 411499 1) = ''found_extended'')
         \<and> (\<exists>e. epoch (example_found 411499 1) = Some e \<and> 411392 < e)"
    by (simp add: example_found_def)
  have age_M: "age_epochs (example_found 411000 500) = Some 500"
    by (simp add: example_found_def)
  note at_M = fusaka_death_tracker [OF tracked_M roster_M, of example_performance_data
      "''2026-01-01T00:00:00''" No_filter, unfolded Let_def computed_M age_M]
  note at_N = fusaka_death_tracker [OF tracked_N roster_N, of example_performance_data
      "''2026-01-01T00:00:00''" No_filter, unfolded Let_def computed_N]
  from at_M [THEN conjunct2, THEN conjunct1] not_recovered_M
  have M: "''M'' \<in> fusaka_node_address ` set (validators (snd
        (calculate_node_performance_scores ''2026-01-01T00:00:00'' example_performance_data
           example_roster No_filter (Some example_fusaka_deaths))))
      \<and> (\<forall>ns\<in>set (filter (\<lambda>ns. score_node_address ns = ''M'') (fst
        (calculate_node_performance_scores ''2026-01-01T00:00:00'' example_performance_data
           example_roster No_filter (Some example_fusaka_deaths)))).
         node_last_attestation ns =
           \<lparr> epoch = Some 411392, timestamp = Some 1764798551,
             datetime = Some (Literal_text ''2025-12-03T21:49:11''),
             age_epochs = Some 500, status = ''fusaka_death'' \<rparr>)"
    by blast
  from at_N [THEN conjunct1] recovered_N
  have N: "''N'' \<notin> fusaka_node_address ` set (validators (snd
        (calculate_node_performance_scores ''2026-01-01T00:00:00'' example_performance_data
           example_roster No_filter (Some example_fusaka_deaths))))"
    by blast
  from tracked_M roster_M M tracked_N roster_N N show ?thesis
    unfolding list_all_iff by blast
qed

subsection \<open>Window performance aggregation\<close>


lemma set_dict_set: "set (dict_set k v kvs) \<subseteq> insert (k, v) (set kvs)"
  by (induction k v kvs rule: dict_set.induct) auto




lemma recent_lookup_other:
  "k \<notin> row_val_id ` set rows \<Longrightarrow>
     fold (\<lambda>row recent.
             (case row_last_attestation_epoch row of
                Some last_attestation_epoch \<Rightarrow>
                  recent (row_val_id row \<mapsto> attested_info ''found'' end_epoch last_attestation_epoch)
              | None \<Rightarrow> recent)) rows m k = m k"
  by (induction rows arbitrary: m) (auto split: option.splits)





lemma process_batch_rows:
  "performance_query client (map validator_val_id batch) start_epoch end_epoch = Some rows \<Longrightarrow>
     \<exists>extended.
       process_batch client retention start_epoch end_epoch latest_epoch batch aggs
         = fold (process_row batch (validators_with_recent_attestations end_epoch rows) extended
                   (total_days retention)) rows aggs"
  by (auto simp: process_batch_def Let_def)

lemma make_aggregate_from_window_row: "from_window_row (make_aggregate v row info) row"
  by (simp add: from_window_row_def make_aggregate_def)

lemma process_row_invariant:
  assumes "\<forall>e\<in>set aggs. P (snd e)" and "\<And>a. from_window_row a row \<Longrightarrow> P a"
  shows "\<forall>e\<in>set (process_row batch recent extended days row aggs). P (snd e)"
proof (cases "find (\<lambda>v. validator_val_id v = row_val_id row) batch")
  case None
  with assms(1) show ?thesis by (simp add: process_row_def Let_def)
next
  case (Some v)
  let ?agg = "make_aggregate v row (row_info recent extended days row)"
  have eq: "process_row batch recent extended days row aggs = dict_set (row_val_id row) ?agg aggs"
    using Some by (simp add: process_row_def row_info_def Let_def)
  have sub: "set (dict_set (row_val_id row) ?agg aggs) \<subseteq> insert (row_val_id row, ?agg) (set aggs)"
    by (rule set_dict_set)
  have new: "P ?agg"
    by (rule assms(2)) (rule make_aggregate_from_window_row)
  show ?thesis
    unfolding eq
  proof
    fix e
    assume "e \<in> set (dict_set (row_val_id row) ?agg aggs)"
    with sub have "e = (row_val_id row, ?agg) \<or> e \<in> set aggs" by blast
    then show "P (snd e)"
      using new assms(1) by auto
  qed
qed

lemma fold_process_row_invariant:
  assumes "\<forall>e\<in>set aggs. P (snd e)"
    and "\<And>a row. row \<in> set rows \<Longrightarrow> from_window_row a row \<Longrightarrow> P a"
  shows "\<forall>e\<in>set (fold (process_row batch recent extended days) rows aggs). P (snd e)"
  using assms
proof (induction rows arbitrary: aggs)
  case Nil
  then show ?case by simp
next
  case (Cons r rows)
  have step: "\<forall>e\<in>set (process_row batch recent extended days r aggs). P (snd e)"
    by (rule process_row_invariant [OF Cons.prems(1)]) (rule Cons.prems(2), simp_all)
  have "\<forall>e\<in>set (fold (process_row batch recent extended days) rows
                      (process_row batch recent extended days r aggs)). P (snd e)"
    by (rule Cons.IH [OF step]) (rule Cons.prems(2), simp_all)
  then show ?case by simp
qed

lemma process_batch_invariant:
  assumes "\<forall>e\<in>set aggs. P (snd e)"
    and "\<And>a ids rows row. performance_query client ids start_epoch end_epoch = Some rows
            \<Longrightarrow> row \<in> set rows \<Longrightarrow> from_window_row a row \<Longrightarrow> P a"
  shows "\<forall>e\<in>set (process_batch client retention start_epoch end_epoch latest_epoch batch aggs).
           P (snd e)"
proof (cases "performance_query client (map validator_val_id batch) start_epoch end_epoch")
  case None
  with assms(1) show ?thesis by (simp add: process_batch_def)
next
  case (Some rows)
  from process_batch_rows [OF Some] obtain extended where
    eq: "process_batch client retention start_epoch end_epoch latest_epoch batch aggs
       = fold (process_row batch (validators_with_recent_attestations end_epoch rows) extended
                 (total_days retention)) rows aggs"
    by blast
  show ?thesis
    unfolding eq
    by (rule fold_process_row_invariant [OF assms(1)]) (rule assms(2) [OF Some])
qed

lemma fold_process_batch_invariant:
  assumes "\<forall>e\<in>set aggs. P (snd e)"
    and "\<And>a ids rows row. performance_query client ids start_epoch end_epoch = Some rows
            \<Longrightarrow> row \<in> set rows \<Longrightarrow> from_window_row a row \<Longrightarrow> P a"
  shows "\<forall>e\<in>set (fold (process_batch client retention start_epoch end_epoch latest_epoch) bs aggs).
           P (snd e)"
  using assms(1)
proof (induction bs arbitrary: aggs)
  case Nil
  then show ?case by simp
next
  case (Cons b bs)
  have step: "\<forall>e\<in>set (process_batch client retention start_epoch end_epoch latest_epoch b aggs).
           P (snd e)"
    by (rule process_batch_invariant [OF Cons.prems]) (rule assms(2))
  from Cons.IH [OF step] show ?case by simp
qed

lemma aggregates_from_window_rows:
  assumes "agg \<in> set (fst (query_attestation_performance client vs latest_epoch epochs_to_analyze))"
  shows "\<exists>ids rows row.
           performance_query client ids (latest_epoch - epochs_to_analyze + 1) latest_epoch = Some rows
           \<and> row \<in> set rows \<and> from_window_row agg row"
proof -
  let ?P = "\<lambda>a. \<exists>ids rows row.
           performance_query client ids (latest_epoch - epochs_to_analyze + 1) latest_epoch = Some rows
           \<and> row \<in> set rows \<and> from_window_row a row"
  let ?aggs = "fold (process_batch client (get_database_retention_info client)
         (latest_epoch - epochs_to_analyze + 1) latest_epoch latest_epoch) (batches 1000 vs) []"
  have inv: "\<forall>e\<in>set ?aggs. ?P (snd e)"
  proof (rule fold_process_batch_invariant)
    show "\<forall>e\<in>set []. ?P (snd e)" by simp
  next
    fix a ids rows row
    assume "performance_query client ids (latest_epoch - epochs_to_analyze + 1) latest_epoch = Some rows"
      and "row \<in> set rows" and "from_window_row a row"
    then show "?P a" by blast
  qed
  from assms have "agg \<in> snd ` set ?aggs"
    by (simp add: query_attestation_performance_def Let_def)
  then obtain e where "e \<in> set ?aggs" and "agg = snd e" by blast
  with inv show ?thesis by blast
qed

text \<open>
  C1. For a node that the rollup reports with at least one active validator, over records
  whose \<open>total_possible_rewards\<close> is the sum of earned and missed rewards: if any record of the
  node carries the preset score 0, the node's score is 0; otherwise, with \<open>E\<close> and \<open>M\<close> the
  node's total earned and missed rewards, it is \<open>round((E / (E + M)) * 100, 2)\<close> as Python
  computes it in floating point when \<open>0 < E + M\<close>, and 0 when \<open>E + M \<le> 0\<close>. The rounding
  answers the float nearest to a two-decimal number that is within 0.005 of its argument. The
  aggregator presets the score to 0 exactly for the records whose window row has no last
  attestation epoch, and every record it produces satisfies
  \<open>total_possible_rewards = earned + missed\<close>.
\<close>

theorem node_zeroing:
  assumes rep: "ns \<in> set (fst (calculate_node_performance_scores now pd roster thr fa))"
    and act: "0 < active_minipools ns"
    and wf: "\<forall>r\<in>set pd. total_possible_rewards r = total_earned_rewards r + total_missed_rewards r"
  shows "node_performance_score ns =
           (let rs = node_records pd (score_node_address ns);
                total_earned = sum_list (map total_earned_rewards rs);
                total_missed = sum_list (map total_missed_rewards rs)
            in if \<exists>r\<in>set rs. performance_score r = Some 0 then Score 0
               else if 0 < total_earned + total_missed
                    then Score (py_round2 (binary64
                           (py_true_divide total_earned (total_earned + total_missed) * 100)))
                    else Score 0)
       \<and> (\<forall>x. \<exists>k. py_round2 x = binary64 (of_int k / 100) \<and> \<bar>of_int k / 100 - x\<bar> \<le> 1 / 200)
       \<and> (\<forall>agg\<in>set (fst (query_attestation_performance client vs latest_epoch epochs_to_analyze)).
            \<exists>ids rows row.
              performance_query client ids (latest_epoch - epochs_to_analyze + 1) latest_epoch = Some rows
              \<and> row \<in> set rows \<and> val_id agg = row_val_id row
              \<and> (performance_score agg = Some 0 \<longleftrightarrow> row_last_attestation_epoch row = None)
              \<and> (performance_score agg = None \<longleftrightarrow> row_last_attestation_epoch row \<noteq> None)
              \<and> total_possible_rewards agg = total_earned_rewards agg + total_missed_rewards agg)"
proof (intro conjI ballI allI)
  show "node_performance_score ns =
           (let rs = node_records pd (score_node_address ns);
                total_earned = sum_list (map total_earned_rewards rs);
                total_missed = sum_list (map total_missed_rewards rs)
            in if \<exists>r\<in>set rs. performance_score r = Some 0 then Score 0
               else if 0 < total_earned + total_missed
                    then Score (py_round2 (binary64
                           (py_true_divide total_earned (total_earned + total_missed) * 100)))
                    else Score 0)"
    by (rule node_score_formula [OF rep act wf])
next
  fix x
  show "\<exists>k. py_round2 x = binary64 (of_int k / 100) \<and> \<bar>of_int k / 100 - x\<bar> \<le> 1 / 200"
    by (rule py_round2_nearest_decimal)
next
  fix agg
  assume "agg \<in> set (fst (query_attestation_performance client vs latest_epoch epochs_to_analyze))"
  from aggregates_from_window_rows [OF this] obtain ids rows row where
    q: "performance_query client ids (latest_epoch - epochs_to_analyze + 1) latest_epoch = Some rows"
    and r: "row \<in> set rows" and f: "from_window_row agg row"
    by blast
  from f have "val_id agg = row_val_id row
              \<and> (performance_score agg = Some 0 \<longleftrightarrow> row_last_attestation_epoch row = None)
              \<and> (performance_score agg = None \<longleftrightarrow> row_last_attestation_epoch row \<noteq> None)
              \<and> total_possible_rewards agg = total_earned_rewards agg + total_missed_rewards agg"
    by (auto simp: from_window_row_def)
  with q r show "\<exists>ids rows row.
              performance_query client ids (latest_epoch - epochs_to_analyze + 1) latest_epoch = Some rows
              \<and> row \<in> set rows \<and> val_id agg = row_val_id row
              \<and> (performance_score agg = Some 0 \<longleftrightarrow> row_last_attestation_epoch row = None)
              \<and> (performance_score agg = None \<longleftrightarrow> row_last_attestation_epoch row \<noteq> None)
              \<and> total_possible_rewards agg = total_earned_rewards agg + total_missed_rewards agg"
    by (intro exI [of _ ids] exI [of _ rows] exI [of _ row]) simp
qed

theorem node_zeroing_witness:
  "example_node_scores ! 1 \<in> set example_node_scores
   \<and> 0 < active_minipools (example_node_scores ! 1)
   \<and> list_all (\<lambda>r. total_possible_rewards r = total_earned_rewards r + total_missed_rewards r)
        example_performance_data
   \<and> score_node_address (example_node_scores ! 1) = ''N''
   \<and> map performance_score (node_records example_performance_data ''N'') = [None, Some 0]
   \<and> node_performance_score (example_node_scores ! 1) = Score 0
   \<and> example_node_scores ! 0 \<in> set example_node_scores
   \<and> 0 < active_minipools (example_node_scores ! 0)
   \<and> score_node_address (example_node_scores ! 0) = ''M''
   \<and> map performance_score (node_records example_performance_data ''M'') = [None]
   \<and> node_performance_score (example_node_scores ! 0) = Score (binary64 (1437 / 100))
   \<and> map (\<lambda>agg. (val_id agg, performance_score agg))
        (fst (query_attestation_performance (example_client (Some (409000, 411500)))
                example_validators 411500 225))
       = [(1, None), (2, Some 0)]"
proof -
  have mem1: "example_node_scores ! 1 \<in> set example_node_scores"
    and mem0: "example_node_scores ! 0 \<in> set example_node_scores"
    by code_simp+
  have act1: "0 < active_minipools (example_node_scores ! 1)"
    and act0: "0 < active_minipools (example_node_scores ! 0)"
    by code_simp+
  have addr1: "score_node_address (example_node_scores ! 1) = ''N''"
    and addr0: "score_node_address (example_node_scores ! 0) = ''M''"
    by code_simp+
  have pre1: "map performance_score (node_records example_performance_data ''N'') = [None, Some 0]"
    and pre0: "map performance_score (node_records example_performance_data ''M'') = [None]"
    by code_simp+
  have wf: "\<forall>r\<in>set example_performance_data.
              total_possible_rewards r = total_earned_rewards r + total_missed_rewards r"
    by code_simp
  have rhs1: "(let rs = node_records example_performance_data (score_node_address (example_node_scores ! 1));
                total_earned = sum_list (map total_earned_rewards rs);
                total_missed = sum_list (map total_missed_rewards rs)
            in if \<exists>r\<in>set rs. performance_score r = Some 0 then Score 0
               else if 0 < total_earned + total_missed
                    then Score (py_round2 (binary64
                           (py_true_divide total_earned (total_earned + total_missed) * 100)))
                    else Score 0)
             = Score 0"
    by code_simp
  have rhs0: "(let rs = node_records example_performance_data (score_node_address (example_node_scores ! 0));
                total_earned = sum_list (map total_earned_rewards rs);
                total_missed = sum_list (map total_missed_rewards rs)
            in if \<exists>r\<in>set rs. performance_score r = Some 0 then Score 0
               else if 0 < total_earned + total_missed
                    then Score (py_round2 (binary64
                           (py_true_divide total_earned (total_earned + total_missed) * 100)))
                    else Score 0)
             = Score (binary64 (1437 / 100))"
    by code_simp
  have aggs: "map (\<lambda>agg. (val_id agg, performance_score agg))
        (fst (query_attestation_performance (example_client (Some (409000, 411500)))
                example_validators 411500 225))
       = [(1, None), (2, Some 0)]"
    by code_simp
  note z1 = node_zeroing [OF mem1 [unfolded example_node_scores_def] act1 [unfolded example_node_scores_def] wf,
      THEN conjunct1, folded example_node_scores_def]
  note z0 = node_zeroing [OF mem0 [unfolded example_node_scores_def] act0 [unfolded example_node_scores_def] wf,
      THEN conjunct1, folded example_node_scores_def]
  have s1: "node_performance_score (example_node_scores ! 1) = Score 0"
    using z1 rhs1 by simp
  have s0: "node_performance_score (example_node_scores ! 0) = Score (binary64 (1437 / 100))"
    using z0 rhs0 by simp
  have wf': "list_all (\<lambda>r. total_possible_rewards r = total_earned_rewards r + total_missed_rewards r)
        example_performance_data"
    using wf by (simp add: list_all_iff)
  from mem1 act1 wf' addr1 pre1 s1 mem0 act0 addr0 pre0 s0 aggs show ?thesis
    by (intro conjI)
qed

text \<open>
  Node \<open>M\<close> has earned 23 and missed 137. The exact ratio is 14.375, which rounds to 14.38, and
  so does the float \<open>100 * 23 / 160\<close>; the program divides first, obtains a float just below
  14.375, and reports 14.37.
\<close>

theorem node_score_not_rounded_ratio:
  "score_node_address (example_node_scores ! 0) = ''M''
   \<and> map (\<lambda>r. (total_earned_rewards r, total_missed_rewards r, performance_score r))
        (node_records example_performance_data ''M'') = [(23, 137, None)]
   \<and> 0 < active_minipools (example_node_scores ! 0)
   \<and> node_performance_score (example_node_scores ! 0) = Score (binary64 (1437 / 100))
   \<and> (100 * 23 / (23 + 137) :: rat) = 14375 / 1000
   \<and> round_half_even (100 * 23 / (23 + 137) * 100) = 1438
   \<and> py_round2 (py_true_divide (100 * 23) (23 + 137)) = binary64 (1438 / 100)
   \<and> binary64 (1437 / 100) < binary64 (1438 / 100)"
proof -
  have "score_node_address (example_node_scores ! 0) = ''M''"
    by code_simp
  moreover have "map (\<lambda>r. (total_earned_rewards r, total_missed_rewards r, performance_score r))
        (node_records example_performance_data ''M'') = [(23, 137, None)]"
    by code_simp
  moreover have "0 < active_minipools (example_node_scores ! 0)"
    by code_simp
  moreover have "node_performance_score (example_node_scores ! 0) = Score (binary64 (1437 / 100))"
    by code_simp
  moreover have "(100 * 23 / (23 + 137) :: rat) = 14375 / 1000"
    by simp
  moreover have "round_half_even (100 * 23 / (23 + 137) * 100) = 1438"
    by code_simp
  moreover have "py_round2 (py_true_divide (100 * 23) (23 + 137)) = binary64 (1438 / 100)"
    by code_simp
  moreover have "binary64 (1437 / 100) < binary64 (1438 / 100)"
    by code_simp
  ultimately show ?thesis
    by (intro conjI)
qed

subsection \<open>When the extended history search runs\<close>





subsection \<open>Rounding to a float\<close>

lemma pow2_powi: "pow2 e = 2 powi e"
  by (simp add: pow2_def power_int_def field_simps)

lemma pow2_pos [simp]: "0 < pow2 e"
  by (simp add: pow2_def)

lemma pow2_nonneg [simp]: "0 \<le> pow2 e"
  using pow2_pos [of e] by (rule less_imp_le)

lemma pow2_nonzero [simp]: "pow2 e \<noteq> 0"
  by (simp add: pow2_def)

lemma pow2_add: "pow2 (a + b) = pow2 a * pow2 b"
  by (simp add: pow2_powi power_int_add)

lemma pow2_diff: "pow2 (a - b) = pow2 a / pow2 b"
  by (simp add: pow2_powi power_int_diff)

lemma pow2_le_iff [simp]: "pow2 a \<le> pow2 b \<longleftrightarrow> a \<le> b"
proof
  assume "a \<le> b"
  then show "pow2 a \<le> pow2 b"
    unfolding pow2_powi by (intro power_int_increasing) simp_all
next
  assume le: "pow2 a \<le> pow2 b"
  show "a \<le> b"
  proof (rule ccontr)
    assume "\<not> a \<le> b"
    then have "b < a" by simp
    then have "(2::rat) powi b < 2 powi a"
      by (intro power_int_strict_increasing) simp_all
    with le show False
      by (simp add: pow2_powi)
  qed
qed

lemma pow2_less_iff [simp]: "pow2 a < pow2 b \<longleftrightarrow> a < b"
  using pow2_le_iff [of b a] by (simp only: not_le [symmetric])

lemma pow2_nat: "pow2 (int n) = 2 ^ n"
  by (simp add: pow2_def)

lemma pow2_of_int: "0 \<le> e \<Longrightarrow> pow2 e = of_int (2 ^ nat e)"
  by (simp add: pow2_def)

lemma floor_log2_bounds:
  assumes "0 < x"
  shows "pow2 (floor_log2 x) \<le> x \<and> x < pow2 (floor_log2 x + 1)"
proof -
  obtain p q where pq: "quotient_of x = (p, q)"
    by force
  then have q: "0 < q" and x: "x = of_int p / of_int q"
    by (simp_all add: quotient_of_denom_pos quotient_of_div)
  with assms have p: "0 < p"
    by (simp add: zero_less_divide_iff)
  let ?bp = "bitlen p" and ?bq = "bitlen q"
  from bitlen_bounds [OF p] have p1: "2 ^ nat (?bp - 1) \<le> p" and p2: "p < 2 ^ nat ?bp"
    by simp_all
  from bitlen_bounds [OF q] have q1: "2 ^ nat (?bq - 1) \<le> q" and q2: "q < 2 ^ nat ?bq"
    by simp_all
  have bp: "1 \<le> ?bp" and bq: "1 \<le> ?bq"
    using p q bitlen_eq_zero_iff [of p] bitlen_eq_zero_iff [of q] bitlen_nonneg [of p]
      bitlen_nonneg [of q] by linarith+
  have P1: "pow2 (?bp - 1) \<le> of_int p" and P2: "of_int p < pow2 ?bp"
    using p1 p2 bp by (simp_all add: pow2_of_int)
  have Q1: "pow2 (?bq - 1) \<le> of_int q" and Q2: "of_int q < pow2 ?bq"
    using q1 q2 bq by (simp_all add: pow2_of_int)
  have qpos: "(0::rat) < of_int q"
    using q by simp
  have "pow2 (?bp - 1 - ?bq) = pow2 (?bp - 1) / pow2 ?bq"
    by (rule pow2_diff)
  also have "\<dots> \<le> of_int p / pow2 ?bq"
    using P1 by (rule divide_right_mono) simp
  also have "\<dots> \<le> of_int p / of_int q"
  proof (rule divide_left_mono)
    show "rat_of_int q \<le> pow2 ?bq"
      using Q2 by simp
    show "0 \<le> rat_of_int p"
      using p by simp
    show "0 < pow2 ?bq * rat_of_int q"
      using qpos by (intro mult_pos_pos) simp_all
  qed
  finally have lo: "pow2 (?bp - ?bq - 1) \<le> x"
    by (simp add: x algebra_simps)
  have "of_int p / of_int q < pow2 ?bp / of_int q"
    using P2 qpos by (rule divide_strict_right_mono)
  also have "\<dots> \<le> pow2 ?bp / pow2 (?bq - 1)"
  proof (rule divide_left_mono)
    show "pow2 (?bq - 1) \<le> rat_of_int q"
      by (rule Q1)
    show "0 \<le> pow2 ?bp"
      by simp
    show "0 < rat_of_int q * pow2 (?bq - 1)"
      using qpos by (intro mult_pos_pos) simp_all
  qed
  also have "\<dots> = pow2 (?bp - (?bq - 1))"
    by (rule pow2_diff [symmetric])
  finally have hi: "x < pow2 (?bp - ?bq + 1)"
    by (simp add: x algebra_simps)
  show ?thesis
  proof (cases "pow2 (?bp - ?bq) \<le> x")
    case True
    then show ?thesis
      using hi by (simp add: floor_log2_def pq Let_def)
  next
    case False
    then show ?thesis
      using lo by (simp add: floor_log2_def pq Let_def)
  qed
qed

lemma floor_log2_unique:
  assumes "pow2 e \<le> x" and "x < pow2 (e + 1)"
  shows "floor_log2 x = e"
proof -
  have pos: "0 < x"
    using assms(1) pow2_pos [of e] by linarith
  from floor_log2_bounds [OF pos]
  have lo: "pow2 (floor_log2 x) \<le> x" and hi: "x < pow2 (floor_log2 x + 1)"
    by simp_all
  from lo assms(2) have "pow2 (floor_log2 x) < pow2 (e + 1)"
    by linarith
  moreover from assms(1) hi have "pow2 e < pow2 (floor_log2 x + 1)"
    by linarith
  ultimately show ?thesis
    by simp
qed

lemma floor_log2_mono:
  assumes "0 < x" and "x \<le> y"
  shows "floor_log2 x \<le> floor_log2 y"
proof -
  from assms have "0 < y" by simp
  from floor_log2_bounds [OF assms(1)] floor_log2_bounds [OF this] assms(2)
  have "pow2 (floor_log2 x) < pow2 (floor_log2 y + 1)"
    by linarith
  then show ?thesis
    by simp
qed

lemma floor_log2_less:
  assumes "0 < x" and "x < pow2 e"
  shows "floor_log2 x < e"
proof -
  from floor_log2_bounds [OF assms(1)] assms(2) have "pow2 (floor_log2 x) < pow2 e"
    by linarith
  then show ?thesis
    by simp
qed

lemma round_half_even_of_int [simp]: "round_half_even (of_int k) = k"
  by (simp add: round_half_even_def)

lemma round_half_even_ge: "of_int m \<le> x \<Longrightarrow> m \<le> round_half_even x"
proof -
  assume "of_int m \<le> x"
  then have "m \<le> \<lfloor>x\<rfloor>"
    by (simp add: le_floor_iff)
  then show ?thesis
    by (auto simp: round_half_even_def Let_def)
qed

lemma round_half_even_le: "x \<le> of_int m \<Longrightarrow> round_half_even x \<le> m"
proof -
  assume le: "x \<le> of_int m"
  show ?thesis
  proof (cases "x = of_int m")
    case True
    then show ?thesis by simp
  next
    case False
    with le have "x < of_int m" by simp
    then have "\<lfloor>x\<rfloor> < m"
      by (simp add: floor_less_iff)
    then show ?thesis
      by (auto simp: round_half_even_def Let_def)
  qed
qed

lemma round_half_even_mono:
  assumes "x \<le> y"
  shows "round_half_even x \<le> round_half_even y"
proof (cases "\<lfloor>x\<rfloor> = \<lfloor>y\<rfloor>")
  case True
  with assms show ?thesis
    by (auto simp: round_half_even_def Let_def)
next
  case False
  with assms have "\<lfloor>x\<rfloor> + 1 \<le> \<lfloor>y\<rfloor>"
    using floor_mono [of x y] by linarith
  moreover have "round_half_even x \<le> \<lfloor>x\<rfloor> + 1"
    by (auto simp: round_half_even_def Let_def)
  moreover have "\<lfloor>y\<rfloor> \<le> round_half_even y"
    by (auto simp: round_half_even_def Let_def)
  ultimately show ?thesis
    by linarith
qed

text \<open>The spacing of the floats around \<open>x\<close>.\<close>

lemma binary64_quantum:
  "x \<noteq> 0 \<Longrightarrow>
     binary64 x = of_int (round_half_even (x / pow2 (max (floor_log2 \<bar>x\<bar> - 52) (- 1074))))
                    * pow2 (max (floor_log2 \<bar>x\<bar> - 52) (- 1074))"
  by (simp add: binary64_def Let_def)

lemma multiple_of_quantum:
  assumes "t \<le> j"
  shows "of_int m * pow2 j / pow2 t = of_int (m * 2 ^ nat (j - t))"
proof -
  have "pow2 j / pow2 t = pow2 (j - t)"
    by (rule pow2_diff [symmetric])
  also have "\<dots> = of_int (2 ^ nat (j - t))"
    using assms by (simp add: pow2_of_int)
  finally have eq: "pow2 j / pow2 t = of_int (2 ^ nat (j - t))" .
  have "of_int m * pow2 j / pow2 t = of_int m * (pow2 j / pow2 t)"
    by simp
  also have "\<dots> = of_int m * of_int (2 ^ nat (j - t))"
    by (simp only: eq)
  also have "\<dots> = of_int (m * 2 ^ nat (j - t))"
    by simp
  finally show ?thesis .
qed

lemma binary64_ge_multiple:
  assumes pos: "0 < x" and le: "of_int m * pow2 j \<le> x" and less: "x < pow2 (j + 53)"
    and j: "- 1074 \<le> j"
  shows "of_int m * pow2 j \<le> binary64 x"
proof -
  let ?t = "max (floor_log2 \<bar>x\<bar> - 52) (- 1074)"
  from floor_log2_less [OF pos less] pos j have t: "?t \<le> j"
    by simp
  have "of_int m * pow2 j / pow2 ?t \<le> x / pow2 ?t"
    using le by (rule divide_right_mono) simp
  then have "of_int (m * 2 ^ nat (j - ?t)) \<le> x / pow2 ?t"
    by (simp only: multiple_of_quantum [OF t])
  then have "m * 2 ^ nat (j - ?t) \<le> round_half_even (x / pow2 ?t)"
    by (rule round_half_even_ge)
  then have "(of_int (m * 2 ^ nat (j - ?t)) :: rat) \<le> of_int (round_half_even (x / pow2 ?t))"
    by (simp only: of_int_le_iff)
  then have "of_int m * pow2 j / pow2 ?t \<le> of_int (round_half_even (x / pow2 ?t))"
    by (simp only: multiple_of_quantum [OF t])
  then have "of_int m * pow2 j \<le> of_int (round_half_even (x / pow2 ?t)) * pow2 ?t"
    by (simp add: pos_divide_le_eq)
  then show ?thesis
    using pos by (simp add: binary64_quantum)
qed

lemma binary64_le_multiple:
  assumes pos: "0 < x" and le: "x \<le> of_int m * pow2 j" and less: "x < pow2 (j + 53)"
    and j: "- 1074 \<le> j"
  shows "binary64 x \<le> of_int m * pow2 j"
proof -
  let ?t = "max (floor_log2 \<bar>x\<bar> - 52) (- 1074)"
  from floor_log2_less [OF pos less] pos j have t: "?t \<le> j"
    by simp
  have "x / pow2 ?t \<le> of_int m * pow2 j / pow2 ?t"
    using le by (rule divide_right_mono) simp
  then have "x / pow2 ?t \<le> of_int (m * 2 ^ nat (j - ?t))"
    by (simp only: multiple_of_quantum [OF t])
  then have "round_half_even (x / pow2 ?t) \<le> m * 2 ^ nat (j - ?t)"
    by (rule round_half_even_le)
  then have "(of_int (round_half_even (x / pow2 ?t)) :: rat) \<le> of_int (m * 2 ^ nat (j - ?t))"
    by (simp only: of_int_le_iff)
  then have "of_int (round_half_even (x / pow2 ?t)) \<le> of_int m * pow2 j / pow2 ?t"
    by (simp only: multiple_of_quantum [OF t])
  then have "of_int (round_half_even (x / pow2 ?t)) * pow2 ?t \<le> of_int m * pow2 j"
    by (simp add: pos_le_divide_eq)
  then show ?thesis
    using pos by (simp add: binary64_quantum)
qed

lemma binary64_nonneg: "0 \<le> x \<Longrightarrow> 0 \<le> binary64 x"
proof (cases "x = 0")
  case True
  then show ?thesis by (simp add: binary64_def)
next
  case False
  assume "0 \<le> x"
  then have "0 \<le> x / pow2 (max (floor_log2 \<bar>x\<bar> - 52) (- 1074))"
    by simp
  then have "0 \<le> round_half_even (x / pow2 (max (floor_log2 \<bar>x\<bar> - 52) (- 1074)))"
    using round_half_even_ge [of 0] by simp
  then show ?thesis
    using False by (simp add: binary64_quantum)
qed

lemma binary64_nonpos: "x \<le> 0 \<Longrightarrow> binary64 x \<le> 0"
proof (cases "x = 0")
  case True
  then show ?thesis by (simp add: binary64_def)
next
  case False
  assume "x \<le> 0"
  then have "x / pow2 (max (floor_log2 \<bar>x\<bar> - 52) (- 1074)) \<le> 0"
    by (simp add: divide_le_0_iff)
  then have "round_half_even (x / pow2 (max (floor_log2 \<bar>x\<bar> - 52) (- 1074))) \<le> 0"
    using round_half_even_le [of _ 0] by simp
  then show ?thesis
    using False by (simp add: binary64_quantum mult_le_0_iff)
qed

text \<open>Rounding is monotone on the positive numbers.\<close>

lemma binary64_mono_pos:
  assumes x: "0 < x" and xy: "x \<le> y"
  shows "binary64 x \<le> binary64 y"
proof -
  from x xy have y: "0 < y" by simp
  let ?ex = "floor_log2 x" and ?ey = "floor_log2 y"
  let ?tx = "max (?ex - 52) (- 1074)" and ?ty = "max (?ey - 52) (- 1074)"
  have e: "?ex \<le> ?ey"
    by (rule floor_log2_mono [OF x xy])
  have bx: "binary64 x = of_int (round_half_even (x / pow2 ?tx)) * pow2 ?tx"
    using x by (simp add: binary64_quantum)
  have by': "binary64 y = of_int (round_half_even (y / pow2 ?ty)) * pow2 ?ty"
    using y by (simp add: binary64_quantum)
  show ?thesis
  proof (cases "?tx = ?ty")
    case True
    have "x / pow2 ?ty \<le> y / pow2 ?ty"
      using xy by (rule divide_right_mono) simp
    then have "round_half_even (x / pow2 ?ty) \<le> round_half_even (y / pow2 ?ty)"
      by (rule round_half_even_mono)
    then show ?thesis
      unfolding bx by' True by simp
  next
    case False
    with e have lt: "?ex < ?ey" and ty: "?ty = ?ey - 52" and ey: "- 1074 \<le> ?ey"
      by (auto simp: max_def split: if_splits)
    have up1: "pow2 (?ex + 1) \<le> pow2 ?ey" and up2: "pow2 ?ey \<le> pow2 (?ey + 53)"
      and up3: "pow2 (?ey + 1) \<le> pow2 (?ey + 53)"
      using lt by simp_all
    from floor_log2_bounds [OF x] up1 have x_lt: "x < pow2 ?ey"
      by linarith
    then have x_le: "x \<le> of_int 1 * pow2 ?ey"
      by simp
    from x_lt up2 have x_less: "x < pow2 (?ey + 53)"
      by linarith
    from floor_log2_bounds [OF y] have y_ge: "of_int 1 * pow2 ?ey \<le> y"
      by simp
    from floor_log2_bounds [OF y] up3 have y_less: "y < pow2 (?ey + 53)"
      by linarith
    from binary64_le_multiple [OF x x_le x_less ey] binary64_ge_multiple [OF y y_ge y_less ey]
    show ?thesis
      by linarith
  qed
qed

lemma binary64_mono_nonneg:
  assumes "0 \<le> x" and "x \<le> y"
  shows "binary64 x \<le> binary64 y"
proof (cases "x = 0")
  case True
  with assms binary64_nonneg [of y] show ?thesis
    by (simp add: binary64_def)
next
  case False
  with assms have "0 < x" by simp
  then show ?thesis
    using assms(2) by (rule binary64_mono_pos)
qed

text \<open>A number with at most 53 significant bits is a float.\<close>

lemma binary64_exact:
  assumes m: "\<bar>m\<bar> < 2 ^ 53" and j: "- 1074 \<le> j"
  shows "binary64 (of_int m * pow2 j) = of_int m * pow2 j"
proof (cases "m = 0")
  case True
  then show ?thesis by (simp add: binary64_def)
next
  case False
  let ?x = "of_int m * pow2 j :: rat"
  let ?t = "max (floor_log2 \<bar>?x\<bar> - 52) (- 1074)"
  have nz: "?x \<noteq> 0"
    using False pow2_pos [of j] by simp
  have abs_x: "\<bar>?x\<bar> = of_int \<bar>m\<bar> * pow2 j"
    by (simp add: abs_mult)
  have "(of_int \<bar>m\<bar> :: rat) < of_int (2 ^ 53)"
    using m by (simp only: of_int_less_iff)
  then have "of_int \<bar>m\<bar> * pow2 j < pow2 53 * pow2 j"
    by (intro mult_strict_right_mono) (simp_all add: pow2_def)
  moreover have "pow2 (j + 53) = pow2 53 * pow2 j"
    by (simp only: pow2_add mult.commute)
  ultimately have less: "\<bar>?x\<bar> < pow2 (j + 53)"
    by (simp only: abs_x)
  have pos: "0 < \<bar>?x\<bar>"
    using nz by simp
  from floor_log2_less [OF pos less] j have t: "?t \<le> j"
    by simp
  have "?x / pow2 ?t = of_int (m * 2 ^ nat (j - ?t))"
    by (rule multiple_of_quantum [OF t])
  then have "of_int (round_half_even (?x / pow2 ?t)) * pow2 ?t = ?x / pow2 ?t * pow2 ?t"
    by (simp only: round_half_even_of_int)
  also have "\<dots> = ?x"
    by simp
  finally have "of_int (round_half_even (?x / pow2 ?t)) * pow2 ?t = ?x" .
  with binary64_quantum [OF nz] show ?thesis
    by simp
qed

lemma binary64_of_int:
  assumes "\<bar>m\<bar> < 2 ^ 53"
  shows "binary64 (of_int m) = of_int m"
  using binary64_exact [OF assms, of 0] by (simp add: pow2_def)

subsection \<open>Undercollateralised validators\<close>

lemma float_31_9: "binary64 (319 / 10) = 4489525878534963 / 140737488355328"
  by code_simp

lemma float_below_31_9:
  "binary64 (of_int 8979051757069925 * pow2 (- 48)) = of_int 8979051757069925 * pow2 (- 48)"
  by (rule binary64_exact) simp_all

lemma float_below_31_9_value: "of_int 8979051757069925 * pow2 (- 48) = 8979051757069925 / 281474976710656"
  by (simp add: pow2_def)

lemma below_float_31_9:
  assumes "0 < x" and "x \<le> 31899999999 / 1000000000"
  shows "binary64 x < binary64 (319 / 10)"
proof -
  have "x \<le> 8979051757069925 / 281474976710656"
    using assms(2) by simp
  then have "x \<le> of_int 8979051757069925 * pow2 (- 48)"
    by (simp only: float_below_31_9_value)
  from binary64_mono_pos [OF assms(1) this]
  have "binary64 x \<le> of_int 8979051757069925 * pow2 (- 48)"
    by (simp only: float_below_31_9)
  then have "binary64 x \<le> 8979051757069925 / 281474976710656"
    by (simp only: float_below_31_9_value)
  then show ?thesis
    by (simp add: float_31_9)
qed

lemma not_below_float_31_9:
  assumes "319 / 10 \<le> x"
  shows "binary64 (319 / 10) \<le> binary64 x"
  by (rule binary64_mono_pos [OF _ assms]) simp

lemma float_tiny: "binary64 (of_int 1 * pow2 (- 30)) = of_int 1 * pow2 (- 30)"
  by (rule binary64_exact) simp_all

lemma binary64_pos:
  assumes "1 / 1000000000 \<le> x"
  shows "0 < binary64 x"
proof -
  have v: "of_int 1 * pow2 (- 30) = (1 / 1073741824 :: rat)"
    by (simp add: pow2_def)
  have "1 / 1073741824 \<le> x"
    using assms by simp
  then have "of_int 1 * pow2 (- 30) \<le> x"
    by (simp only: v)
  moreover have "(0::rat) < of_int 1 * pow2 (- 30)"
    by (simp only: v)
  ultimately have "binary64 (of_int 1 * pow2 (- 30)) \<le> binary64 x"
    by (intro binary64_mono_pos)
  then have "of_int 1 * pow2 (- 30) \<le> binary64 x"
    by (simp only: float_tiny)
  then have "1 / 1073741824 \<le> binary64 x"
    by (simp only: v)
  then show ?thesis
    by simp
qed

lemma snapshot_counted_iff:
  "0 < py_true_divide b 1000000000 \<and> py_true_divide b 1000000000 < binary64 (319 / 10)
     \<longleftrightarrow> 0 < b \<and> b < 31900000000"
proof (cases "0 < b")
  case False
  then have "rat_of_int b / 1000000000 \<le> 0"
    by (simp add: divide_le_0_iff)
  then have "binary64 (rat_of_int b / 1000000000) \<le> 0"
    by (rule binary64_nonpos)
  with False show ?thesis
    by (simp add: py_true_divide_def)
next
  case True
  then have one: "1 \<le> b" by simp
  have xpos: "0 < rat_of_int b / 1000000000"
    using True by simp
  have "1 / 1000000000 \<le> rat_of_int b / 1000000000"
    using one by (simp add: divide_right_mono)
  then have pos: "0 < binary64 (rat_of_int b / 1000000000)"
    by (rule binary64_pos)
  show ?thesis
  proof (cases "b < 31900000000")
    case True
    then have "b \<le> 31899999999" by simp
    then have "rat_of_int b \<le> 31899999999"
      by (simp only: of_int_le_iff [of b 31899999999, where ?'a = rat, symmetric] of_int_numeral)
    then have "rat_of_int b / 1000000000 \<le> 31899999999 / 1000000000"
      by (simp add: divide_right_mono)
    from below_float_31_9 [OF xpos this] pos True \<open>0 < b\<close> show ?thesis
      by (simp add: py_true_divide_def)
  next
    case False
    then have "31900000000 \<le> b" by simp
    then have "31900000000 \<le> rat_of_int b"
      by (simp only: of_int_le_iff [of 31900000000 b, where ?'a = rat, symmetric] of_int_numeral)
    then have "319 / 10 \<le> rat_of_int b / 1000000000"
      by (simp add: pos_le_divide_eq)
    from not_below_float_31_9 [OF this] False show ?thesis
      by (simp add: py_true_divide_def)
  qed
qed

lemma rollup_counted_iff:
  "binary64 (binary64 (of_int b) / 1000000000) < binary64 (319 / 10) \<longleftrightarrow> b < 31900000000"
proof (cases "0 < b")
  case False
  then have "rat_of_int b \<le> 0" by simp
  then have "binary64 (rat_of_int b) \<le> 0"
    by (rule binary64_nonpos)
  then have "binary64 (rat_of_int b) / 1000000000 \<le> 0"
    by (simp add: divide_le_0_iff)
  then have "binary64 (binary64 (rat_of_int b) / 1000000000) \<le> 0"
    by (rule binary64_nonpos)
  with False show ?thesis
    by (simp add: float_31_9)
next
  case True
  then have bpos: "(0::rat) < of_int b" by simp
  have "(1::rat) \<le> of_int b"
    using True by (simp add: of_int_1_le_iff [symmetric] del: of_int_1_le_iff)
  with binary64_mono_pos [of 1 "of_int b"] binary64_of_int [of 1]
  have ypos: "0 < binary64 (rat_of_int b)"
    by simp
  show ?thesis
  proof (cases "b < 31900000000")
    case True
    then have "b \<le> 31899999999" by simp
    then have "rat_of_int b \<le> of_int 31899999999"
      by (simp only: of_int_le_iff)
    from binary64_mono_pos [OF bpos this] binary64_of_int [of 31899999999]
    have "binary64 (rat_of_int b) \<le> 31899999999"
      by simp
    then have "binary64 (rat_of_int b) / 1000000000 \<le> 31899999999 / 1000000000"
      by (simp add: divide_right_mono)
    moreover have "0 < binary64 (rat_of_int b) / 1000000000"
      using ypos by simp
    ultimately show ?thesis
      using below_float_31_9 True by simp
  next
    case False
    then have "31900000000 \<le> b" by simp
    then have "rat_of_int 31900000000 \<le> of_int b"
      by (simp only: of_int_le_iff)
    from binary64_mono_pos [OF _ this] binary64_of_int [of 31900000000]
    have "31900000000 \<le> binary64 (rat_of_int b)"
      by simp
    then have "319 / 10 \<le> binary64 (rat_of_int b) / 1000000000"
      by (simp add: pos_le_divide_eq)
    from not_below_float_31_9 [OF this] False show ?thesis
      by simp
  qed
qed

lemma count_below_31_9_eth_filter:
  "count_below_31_9_eth performance_data below
     = below + length (filter (\<lambda>perf. 0 < latest_balance perf \<and> latest_balance perf < 31900000000)
                         performance_data)"
proof (induction performance_data arbitrary: below)
  case Nil
  then show ?case by simp
next
  case (Cons perf rest)
  show ?case
    using snapshot_counted_iff [of "latest_balance perf"]
    by (simp add: Let_def Cons.IH conj_commute)
qed

lemma reported_below_32_eth:
  assumes "ns \<in> set (fst (calculate_node_performance_scores now pd roster thr fa))"
  shows "node_validators_below_32_eth ns
           = validators_below_32_eth (node_data_of pd (score_node_address ns))"
proof -
  from assms obtain n where
    ns: "ns = fst (score_node pd (node_data_of pd) (fusaka_lookup_of fa) (score_node_address ns, n))"
    by (rule reported_node)
  show ?thesis
    by (subst ns) (simp add: score_node_def Let_def)
qed

text \<open>
  C10. The daily snapshot counts in \<open>below_31_9_eth\<close> exactly the validators whose latest balance
  is strictly between 0 and 31.9 ETH (31900000000 gwei); the comparison is made on the balance
  divided by \<open>10 ^ 9\<close> as a float, which decides the same. A validator with a zero balance is
  therefore never counted there. The node rollup counts, for every node it reports, every
  record of the node whose float balance in ETH is strictly below the float 31.9; for the balance
  that the aggregator writes, that is every balance below 31900000000 gwei, zero included.
\<close>

theorem snapshot_excludes_zero_balance:
  assumes "ns \<in> set (fst (calculate_node_performance_scores now pd roster thr fa))"
  shows "below_31_9_eth
           (calculate_snapshot_metrics fusaka_death_count performance_data node_assignments
              validator_statuses end_epoch)
           = length (filter (\<lambda>perf. 0 < latest_balance perf \<and> latest_balance perf < 31900000000)
                       performance_data)
       \<and> (\<forall>b. (0 < py_true_divide b 1000000000 \<and> py_true_divide b 1000000000 < binary64 (319 / 10))
                = (0 < b \<and> b < 31900000000))
       \<and> node_validators_below_32_eth ns
           = length (filter (\<lambda>r. case val_balance_eth r of
                                   None \<Rightarrow> False
                                 | Some balance_eth \<Rightarrow> balance_eth < binary64 (319 / 10))
                       (node_records pd (score_node_address ns)))
       \<and> (\<forall>b. (binary64 (binary64 (of_int b) / 1000000000) < binary64 (319 / 10))
                = (b < 31900000000))"
proof (intro conjI allI)
  show "below_31_9_eth
           (calculate_snapshot_metrics fusaka_death_count performance_data node_assignments
              validator_statuses end_epoch)
           = length (filter (\<lambda>perf. 0 < latest_balance perf \<and> latest_balance perf < 31900000000)
                       performance_data)"
    by (simp add: calculate_snapshot_metrics_def Let_def count_below_31_9_eth_filter
        split: prod.splits)
next
  fix b
  show "(0 < py_true_divide b 1000000000 \<and> py_true_divide b 1000000000 < binary64 (319 / 10))
          = (0 < b \<and> b < 31900000000)"
    by (rule snapshot_counted_iff)
next
  have "counted_below = (\<lambda>r. case val_balance_eth r of
                                   None \<Rightarrow> False
                                 | Some balance_eth \<Rightarrow> balance_eth < binary64 (319 / 10))"
    by (rule ext) (simp add: counted_below_def)
  then show "node_validators_below_32_eth ns
           = length (filter (\<lambda>r. case val_balance_eth r of
                                   None \<Rightarrow> False
                                 | Some balance_eth \<Rightarrow> balance_eth < binary64 (319 / 10))
                       (node_records pd (score_node_address ns)))"
    using reported_below_32_eth [OF assms]
    by (simp add: node_data_of_fold fold_add_record_below new_node_aggregate_def node_records_def)
next
  fix b
  show "(binary64 (binary64 (of_int b) / 1000000000) < binary64 (319 / 10)) = (b < 31900000000)"
    by (rule rollup_counted_iff)
qed

lemma example_scores_summary:
  "map node_summary example_node_scores
     = [(''M'', 1, 1, 0, Score (binary64 (1437 / 100)), 1),
        (''N'', 2, 2, 0, Score 0, 1),
        (''Q'', 1, 0, 1, Not_available, 0)]"
  by code_simp

lemma example_scores_length: "length example_node_scores = 3"
  using arg_cong [OF example_scores_summary, of length] by simp

lemma example_scores_nth:
  "node_summary (example_node_scores ! 0) = (''M'', 1, 1, 0, Score (binary64 (1437 / 100)), 1)"
  "node_summary (example_node_scores ! 1) = (''N'', 2, 2, 0, Score 0, 1)"
  "node_summary (example_node_scores ! 2) = (''Q'', 1, 0, 1, Not_available, 0)"
  using arg_cong [OF example_scores_summary, of "\<lambda>xs. xs ! 0"]
    arg_cong [OF example_scores_summary, of "\<lambda>xs. xs ! 1"]
    arg_cong [OF example_scores_summary, of "\<lambda>xs. xs ! 2"]
  by (simp_all add: example_scores_length)

theorem snapshot_excludes_zero_balance_witness:
  "example_node_scores ! 1 \<in> set example_node_scores
   \<and> score_node_address (example_node_scores ! 1) = ''N''
   \<and> map val_balance (node_records example_performance_data ''N'') = [32000000000, 0]
   \<and> map val_balance_eth (node_records example_performance_data ''N'') = [Some 32, Some 0]
   \<and> node_validators_below_32_eth (example_node_scores ! 1) = 1
   \<and> map latest_balance example_snapshot_performance = [32000000000, 0, 31000000000]
   \<and> below_31_9_eth (calculate_snapshot_metrics 0 example_snapshot_performance Map.empty [] 411500) = 1"
proof -
  have mem: "example_node_scores ! 1 \<in> set example_node_scores"
    by (simp add: example_scores_length)
  have addr: "score_node_address (example_node_scores ! 1) = ''N''"
    using example_scores_nth(2) by (simp add: node_summary_def)
  have bal: "map val_balance (node_records example_performance_data ''N'') = [32000000000, 0]"
    by (simp add: node_records_def example_performance_data_def example_aggregate_def)
  have eth: "map val_balance_eth (node_records example_performance_data ''N'') = [Some 32, Some 0]"
    by code_simp
  have snap: "map latest_balance example_snapshot_performance = [32000000000, 0, 31000000000]"
    by (simp add: example_snapshot_performance_def example_snapshot_row_def)
  have rollup: "length (filter (\<lambda>r. case val_balance_eth r of
                                   None \<Rightarrow> False
                                 | Some balance_eth \<Rightarrow> balance_eth < binary64 (319 / 10))
                       (node_records example_performance_data ''N'')) = 1"
    by code_simp
  have daily: "length (filter (\<lambda>perf. 0 < latest_balance perf \<and> latest_balance perf < 31900000000)
                       example_snapshot_performance) = 1"
    by (simp add: example_snapshot_performance_def example_snapshot_row_def)
  note t = snapshot_excludes_zero_balance [OF mem [unfolded example_node_scores_def],
      where fusaka_death_count = 0 and performance_data = example_snapshot_performance
        and node_assignments = Map.empty and validator_statuses = "[]" and end_epoch = 411500,
      folded example_node_scores_def, unfolded addr rollup daily]
  from mem addr bal eth t [THEN conjunct2, THEN conjunct2, THEN conjunct1] snap t [THEN conjunct1]
  show ?thesis
    by (intro conjI)
qed

subsection \<open>Epoch conversion\<close>






subsection \<open>Order of the node list\<close>









subsection \<open>Selection of the node's last attestation\<close>

lemma py_max_from_ge_start: "key x \<le> key (py_max_from key x xs)"
proof (induction xs arbitrary: x)
  case Nil
  then show ?case by simp
next
  case (Cons z zs)
  show ?case
  proof (cases "key x < key z")
    case True
    with Cons [of z] show ?thesis by simp
  next
    case False
    with Cons [of x] show ?thesis by simp
  qed
qed

lemma py_max_from_mem: "py_max_from key x xs \<in> set (x # xs)"
proof (induction xs arbitrary: x)
  case Nil
  then show ?case by simp
next
  case (Cons z zs)
  from Cons [of "if key x < key z then z else x"] show ?case
    by (auto split: if_splits)
qed

lemma py_max_from_max: "y \<in> set (x # xs) \<Longrightarrow> key y \<le> key (py_max_from key x xs)"
proof (induction xs arbitrary: x)
  case Nil
  then show ?case by simp
next
  case (Cons z zs)
  let ?b = "if key x < key z then z else x"
  have start: "key ?b \<le> key (py_max_from key ?b zs)"
    by (rule py_max_from_ge_start)
  from Cons.prems consider "y = x" | "y = z" | "y \<in> set zs"
    by auto
  then show ?case
  proof cases
    case 1
    with start show ?thesis by (auto split: if_splits)
  next
    case 2
    with start show ?thesis by (auto split: if_splits)
  next
    case 3
    then have "y \<in> set (?b # zs)" by simp
    from Cons.IH [OF this] show ?thesis by simp
  qed
qed

lemma split_on_no_separator: "c \<notin> set w \<Longrightarrow> split_on c w = [w]"
  by (induction w) auto

lemma split_on_separator: "c \<notin> set w \<Longrightarrow> split_on c (w @ c # rest) = w # split_on c rest"
proof (induction w)
  case Nil
  then show ?case by simp
next
  case (Cons x w)
  then show ?case
    by (cases "split_on c rest") auto
qed

lemma count_char_append: "count_char c (a @ b) = count_char c a + count_char c b"
  by (simp add: count_char_def)

lemma count_char_absent: "c \<notin> set w \<Longrightarrow> count_char c w = 0"
  by (auto simp: count_char_def filter_empty_conv)

lemma of_char_digit_char: "d < 10 \<Longrightarrow> (of_char (digit_char d) :: nat) = 48 + d"
  by (simp add: digit_char_def)

lemma int_of_char_digit_char: "d < 10 \<Longrightarrow> (of_char (digit_char d) :: int) = 48 + int d"
proof -
  assume "d < 10"
  then have "int (of_char (digit_char d)) = 48 + int d"
    by (simp only: of_char_digit_char)
  then show ?thesis
    by (simp only: of_nat_of_char)
qed

lemma is_ascii_digit_digit_char: "d < 10 \<Longrightarrow> is_ascii_digit (digit_char d)"
  by (simp add: is_ascii_digit_def of_char_digit_char)

lemma str_nat_unfold:
  "str_nat n = (if n < 10 then [digit_char n] else str_nat (n div 10) @ [digit_char (n mod 10)])"
  by (rule str_nat.simps)

declare str_nat.simps [simp del]

lemma str_nat_digits: "list_all is_ascii_digit (str_nat n)"
proof (induction n rule: str_nat.induct)
  case (1 n)
  show ?case
  proof (cases "n < 10")
    case True
    then show ?thesis
      by (subst str_nat_unfold) (simp add: is_ascii_digit_digit_char)
  next
    case False
    with 1 show ?thesis
      by (subst str_nat_unfold) (simp add: is_ascii_digit_digit_char)
  qed
qed

lemma str_nat_nonempty: "str_nat n \<noteq> []"
  by (subst str_nat_unfold) simp

lemma int_of_digits_snoc:
  "int_of_digits (s @ [c]) = int_of_digits s * 10 + (of_char c - 48)"
  by (simp add: int_of_digits_def)

lemma int_of_digits_str_nat: "int_of_digits (str_nat n) = int n"
proof (induction n rule: str_nat.induct)
  case (1 n)
  show ?case
  proof (cases "n < 10")
    case True
    then show ?thesis
      by (subst str_nat_unfold) (simp add: int_of_digits_def int_of_char_digit_char)
  next
    case False
    then have "int_of_digits (str_nat n)
                 = int_of_digits (str_nat (n div 10)) * 10 + (of_char (digit_char (n mod 10)) - 48)"
      by (subst str_nat_unfold) (simp add: int_of_digits_snoc)
    also have "\<dots> = int (n div 10) * 10 + int (n mod 10)"
      using False 1 by (simp add: int_of_char_digit_char)
    also have "\<dots> = int n"
      by (simp add: zdiv_int zmod_int)
    finally show ?thesis .
  qed
qed

lemma underscore_not_digit: "is_ascii_digit c \<Longrightarrow> c \<noteq> CHR ''_''"
  by (auto simp: is_ascii_digit_def)

lemma underscore_not_in_str_nat: "CHR ''_'' \<notin> set (str_nat n)"
  using str_nat_digits [of n] underscore_not_digit by (auto simp: list_all_iff)

lemma older_than_status_parts:
  assumes "0 \<le> n"
  shows "split_on CHR ''_'' (older_than_status n) = [''older'', ''than'', str_nat (nat n), ''days'']"
    and "count_char CHR ''_'' (older_than_status n) = 3"
proof -
  let ?ds = "str_nat (nat n)"
  have s: "older_than_status n = ''older'' @ CHR ''_'' # (''than'' @ CHR ''_'' # (?ds @ CHR ''_'' # ''days''))"
    using assms by (simp add: older_than_status_def str_int_def)
  have no: "CHR ''_'' \<notin> set ?ds"
    by (rule underscore_not_in_str_nat)
  have "split_on CHR ''_'' (?ds @ CHR ''_'' # ''days'') = [?ds, ''days'']"
    using no by (simp add: split_on_separator)
  then have "split_on CHR ''_'' (''than'' @ CHR ''_'' # (?ds @ CHR ''_'' # ''days'')) = [''than'', ?ds, ''days'']"
    by (subst split_on_separator) simp_all
  then show "split_on CHR ''_'' (older_than_status n) = [''older'', ''than'', ?ds, ''days'']"
    unfolding s by (subst split_on_separator) simp_all
  show "count_char CHR ''_'' (older_than_status n) = 3"
    using count_char_absent [OF no] by (simp add: s count_char_append) (simp add: count_char_def)
qed

lemma older_day_count_of_status:
  assumes "0 \<le> n"
  shows "older_day_count (status_only (older_than_status n)) = Some n"
proof -
  have st: "status (status_only (older_than_status n)) = older_than_status n"
    by (simp add: status_only_def)
  have digits: "list_all is_ascii_digit (str_nat (nat n))"
    by (rule str_nat_digits)
  then have "list_all py_isdigit_char (str_nat (nat n))"
    by (simp add: list_all_iff py_isdigit_char_def)
  then have "isdigit (str_nat (nat n))"
    by (simp add: isdigit_def str_nat_nonempty)
  then show ?thesis
    using assms digits
    by (simp add: older_day_count_def st older_than_status_parts [OF assms] int_of_digits_str_nat)
qed

lemma get_node_last_attestation_cases:
  "get_node_last_attestation attestations =
     (if attestations = [] then status_only ''no_data''
      else if valid_attestations attestations \<noteq> []
      then py_max_from (\<lambda>x. the (epoch x)) (hd (valid_attestations attestations))
             (tl (valid_attestations attestations))
      else if found_attestations attestations \<noteq> [] then hd (found_attestations attestations)
      else if older_statuses attestations \<noteq> []
              \<and> list_all (\<lambda>x. older_day_count x \<noteq> None) (older_statuses attestations)
      then py_max_from (\<lambda>x. the (older_day_count x)) (hd (older_statuses attestations))
             (tl (older_statuses attestations))
      else status_only ''older_than_10_days'')"
  unfolding get_node_last_attestation_def valid_attestations_def found_attestations_def
    older_statuses_def
  by (auto simp del: filter_filter split: list.splits)

text \<open>
  C7. \<open>get_node_last_attestation\<close> answers \<open>no_data\<close> for a node without descriptors. Otherwise,
  among the descriptors with status \<open>found\<close> or \<open>found_extended\<close> that carry an epoch it answers
  one of greatest epoch; if the found descriptors carry no epoch, the first of them; if there is
  no found descriptor, one of greatest day count among those whose status starts with
  \<open>older_than_\<close>, provided every day count can be read; and \<open>older_than_10_days\<close> in the
  remaining cases. The day count of the status \<open>older_than_N_days\<close> that the aggregator writes is
  \<open>N\<close>.
\<close>

theorem node_last_attestation_selection:
  "(attestations = [] \<longrightarrow> get_node_last_attestation attestations = status_only ''no_data'')
   \<and> (valid_attestations attestations \<noteq> [] \<longrightarrow>
        get_node_last_attestation attestations \<in> set (valid_attestations attestations)
        \<and> (\<forall>a\<in>set (valid_attestations attestations).
              the (epoch a) \<le> the (epoch (get_node_last_attestation attestations))))
   \<and> (found_attestations attestations \<noteq> [] \<and> valid_attestations attestations = [] \<longrightarrow>
        get_node_last_attestation attestations = hd (found_attestations attestations))
   \<and> (found_attestations attestations = [] \<and> older_statuses attestations \<noteq> []
        \<and> list_all (\<lambda>x. older_day_count x \<noteq> None) (older_statuses attestations) \<longrightarrow>
        get_node_last_attestation attestations \<in> set (older_statuses attestations)
        \<and> (\<forall>a\<in>set (older_statuses attestations).
              the (older_day_count a)
                \<le> the (older_day_count (get_node_last_attestation attestations))))
   \<and> (attestations \<noteq> [] \<and> found_attestations attestations = []
        \<and> (older_statuses attestations = []
             \<or> \<not> list_all (\<lambda>x. older_day_count x \<noteq> None) (older_statuses attestations)) \<longrightarrow>
        get_node_last_attestation attestations = status_only ''older_than_10_days'')
   \<and> (\<forall>n\<ge>0. older_day_count (status_only (older_than_status n)) = Some n)"
proof (intro conjI impI allI)
  assume "attestations = []"
  then show "get_node_last_attestation attestations = status_only ''no_data''"
    by (simp add: get_node_last_attestation_def)
next
  assume valid: "valid_attestations attestations \<noteq> []"
  then have ne: "attestations \<noteq> []"
    by (auto simp: valid_attestations_def found_attestations_def)
  let ?v = "valid_attestations attestations"
  have r: "get_node_last_attestation attestations = py_max_from (\<lambda>x. the (epoch x)) (hd ?v) (tl ?v)"
    using valid ne by (simp add: get_node_last_attestation_cases)
  have v: "hd ?v # tl ?v = ?v"
    using valid by simp
  from py_max_from_mem [of "\<lambda>x. the (epoch x)" "hd ?v" "tl ?v"]
  show "get_node_last_attestation attestations \<in> set ?v"
    by (simp only: r v)
  show "\<forall>a\<in>set ?v. the (epoch a) \<le> the (epoch (get_node_last_attestation attestations))"
  proof
    fix a
    assume "a \<in> set ?v"
    then have "a \<in> set (hd ?v # tl ?v)"
      by (simp only: v)
    from py_max_from_max [OF this, of "\<lambda>x. the (epoch x)"]
    show "the (epoch a) \<le> the (epoch (get_node_last_attestation attestations))"
      by (simp only: r)
  qed
next
  assume "found_attestations attestations \<noteq> [] \<and> valid_attestations attestations = []"
  moreover from this have "attestations \<noteq> []"
    by (auto simp: found_attestations_def)
  ultimately show "get_node_last_attestation attestations = hd (found_attestations attestations)"
    by (simp add: get_node_last_attestation_cases)
next
  assume a: "found_attestations attestations = [] \<and> older_statuses attestations \<noteq> []
        \<and> list_all (\<lambda>x. older_day_count x \<noteq> None) (older_statuses attestations)"
  then have ne: "attestations \<noteq> []"
    by (auto simp: older_statuses_def)
  from a have nv: "valid_attestations attestations = []"
    by (simp add: valid_attestations_def)
  let ?o = "older_statuses attestations"
  have r: "get_node_last_attestation attestations
             = py_max_from (\<lambda>x. the (older_day_count x)) (hd ?o) (tl ?o)"
    using a ne nv by (simp add: get_node_last_attestation_cases)
  have o: "hd ?o # tl ?o = ?o"
    using a by simp
  from py_max_from_mem [of "\<lambda>x. the (older_day_count x)" "hd ?o" "tl ?o"]
  show "get_node_last_attestation attestations \<in> set ?o"
    by (simp only: r o)
  show "\<forall>a\<in>set ?o. the (older_day_count a)
                      \<le> the (older_day_count (get_node_last_attestation attestations))"
  proof
    fix a
    assume "a \<in> set ?o"
    then have "a \<in> set (hd ?o # tl ?o)"
      by (simp only: o)
    from py_max_from_max [OF this, of "\<lambda>x. the (older_day_count x)"]
    show "the (older_day_count a) \<le> the (older_day_count (get_node_last_attestation attestations))"
      by (simp only: r)
  qed
next
  assume a: "attestations \<noteq> [] \<and> found_attestations attestations = []
        \<and> (older_statuses attestations = []
             \<or> \<not> list_all (\<lambda>x. older_day_count x \<noteq> None) (older_statuses attestations))"
  then have "valid_attestations attestations = []"
    by (simp add: valid_attestations_def)
  with a show "get_node_last_attestation attestations = status_only ''older_than_10_days''"
    by (auto simp: get_node_last_attestation_cases)
next
  fix n :: int
  assume "0 \<le> n"
  then show "older_day_count (status_only (older_than_status n)) = Some n"
    by (rule older_day_count_of_status)
qed

theorem node_last_attestation_selection_witness:
  "get_node_last_attestation [] = status_only ''no_data''
   \<and> valid_attestations example_found_attestations = [example_found 411000 500, example_found 411499 1]
   \<and> get_node_last_attestation example_found_attestations
        \<in> set (valid_attestations example_found_attestations)
   \<and> list_all (\<lambda>a. the (epoch a) \<le> the (epoch (get_node_last_attestation example_found_attestations)))
        (valid_attestations example_found_attestations)
   \<and> get_node_last_attestation example_found_attestations = example_found 411499 1
   \<and> found_attestations example_null_epoch_attestations
        = [status_only ''found_extended'', status_only ''found'']
   \<and> valid_attestations example_null_epoch_attestations = []
   \<and> get_node_last_attestation example_null_epoch_attestations = status_only ''found_extended''
   \<and> found_attestations example_older_attestations = []
   \<and> map older_day_count (older_statuses example_older_attestations) = [Some 10, Some 45, Some 9]
   \<and> get_node_last_attestation example_older_attestations
        \<in> set (older_statuses example_older_attestations)
   \<and> list_all (\<lambda>a. the (older_day_count a)
                    \<le> the (older_day_count (get_node_last_attestation example_older_attestations)))
        (older_statuses example_older_attestations)
   \<and> get_node_last_attestation example_older_attestations = status_only ''older_than_45_days''
   \<and> found_attestations example_unparsable_attestations = []
   \<and> map older_day_count (older_statuses example_unparsable_attestations) = [Some 45, None]
   \<and> get_node_last_attestation example_unparsable_attestations = status_only ''older_than_10_days''
   \<and> older_day_count (status_only (older_than_status 45)) = Some 45"
proof -
  note empty = node_last_attestation_selection [of "[]", THEN conjunct1, THEN mp, OF refl]
  have valid: "valid_attestations example_found_attestations
                 = [example_found 411000 500, example_found 411499 1]"
    by code_simp
  then have valid_ne: "valid_attestations example_found_attestations \<noteq> []"
    by simp
  note found = node_last_attestation_selection [of example_found_attestations,
      THEN conjunct2, THEN conjunct1, THEN mp, OF valid_ne]
  have found_value: "get_node_last_attestation example_found_attestations = example_found 411499 1"
    by code_simp
  have null_found: "found_attestations example_null_epoch_attestations
        = [status_only ''found_extended'', status_only ''found'']"
    and null_valid: "valid_attestations example_null_epoch_attestations = []"
    by code_simp+
  from null_found null_valid
  have null_hyp: "found_attestations example_null_epoch_attestations \<noteq> []
                    \<and> valid_attestations example_null_epoch_attestations = []"
    by simp
  note null = node_last_attestation_selection [of example_null_epoch_attestations,
      THEN conjunct2, THEN conjunct2, THEN conjunct1, THEN mp, OF null_hyp,
      unfolded null_found list.sel]
  have older_found: "found_attestations example_older_attestations = []"
    and older_keys: "map older_day_count (older_statuses example_older_attestations)
                       = [Some 10, Some 45, Some 9]"
    by code_simp+
  have older_ne: "older_statuses example_older_attestations \<noteq> []"
    using older_keys by auto
  have older_all: "list_all (\<lambda>x. older_day_count x \<noteq> None) (older_statuses example_older_attestations)"
    using arg_cong [OF older_keys, of "list_all (\<lambda>k. k \<noteq> None)"] by (simp add: list_all_iff)
  note older = node_last_attestation_selection [of example_older_attestations,
      THEN conjunct2, THEN conjunct2, THEN conjunct2, THEN conjunct1, THEN mp,
      OF conjI [OF older_found conjI [OF older_ne older_all]]]
  have older_value: "get_node_last_attestation example_older_attestations
                       = status_only ''older_than_45_days''"
    by code_simp
  have bad_found: "found_attestations example_unparsable_attestations = []"
    and bad_keys: "map older_day_count (older_statuses example_unparsable_attestations)
                     = [Some 45, None]"
    by code_simp+
  have bad_ne: "example_unparsable_attestations \<noteq> []"
    by (simp add: example_unparsable_attestations_def)
  have bad_all: "\<not> list_all (\<lambda>x. older_day_count x \<noteq> None)
                     (older_statuses example_unparsable_attestations)"
    using arg_cong [OF bad_keys, of "list_all (\<lambda>k. k \<noteq> None)"] by (simp add: list_all_iff)
  note bad = node_last_attestation_selection [of example_unparsable_attestations,
      THEN conjunct2, THEN conjunct2, THEN conjunct2, THEN conjunct2, THEN conjunct1, THEN mp,
      OF conjI [OF bad_ne conjI [OF bad_found disjI2 [OF bad_all]]]]
  have "(0::int) \<le> 45"
    by simp
  note days = node_last_attestation_selection [of "[]",
      THEN conjunct2, THEN conjunct2, THEN conjunct2, THEN conjunct2, THEN conjunct2,
      THEN spec, THEN mp, OF this]
  have found_all: "list_all (\<lambda>a. the (epoch a)
                       \<le> the (epoch (get_node_last_attestation example_found_attestations)))
        (valid_attestations example_found_attestations)"
    using found [THEN conjunct2] by (simp only: list_all_iff)
  have older_max: "list_all (\<lambda>a. the (older_day_count a)
                    \<le> the (older_day_count (get_node_last_attestation example_older_attestations)))
        (older_statuses example_older_attestations)"
    using older [THEN conjunct2] by (simp only: list_all_iff)
  from empty valid found [THEN conjunct1] found_all found_value null_found null_valid null
    older_found older_keys older [THEN conjunct1] older_max older_value bad_found bad_keys bad days
  show ?thesis
    by (intro conjI)
qed

text \<open>
  Node \<open>Q\<close> has no active validator and thus no descriptor: there is neither a found descriptor
  nor an \<open>older_than\<close> one, and the node's descriptor is \<open>no_data\<close>, not \<open>older_than_10_days\<close>.
\<close>

theorem node_without_descriptors_no_data:
  "found_attestations [] = [] \<and> older_statuses [] = []
   \<and> get_node_last_attestation [] = status_only ''no_data''
   \<and> status (status_only ''no_data'') \<noteq> status (status_only ''older_than_10_days'')
   \<and> map (\<lambda>ns. (score_node_address ns, active_minipools ns, status (node_last_attestation ns)))
        example_node_scores
       = [(''M'', 1, ''fusaka_death''), (''N'', 2, ''found''), (''Q'', 0, ''no_data'')]"
proof -
  have "found_attestations [] = []" and "older_statuses [] = []"
    by (simp_all add: found_attestations_def older_statuses_def)
  moreover have "get_node_last_attestation [] = status_only ''no_data''"
    by (simp add: get_node_last_attestation_def)
  moreover have "status (status_only ''no_data'') \<noteq> status (status_only ''older_than_10_days'')"
    by (simp add: status_only_def)
  moreover have "map (\<lambda>ns. (score_node_address ns, active_minipools ns, status (node_last_attestation ns)))
        example_node_scores
       = [(''M'', 1, ''fusaka_death''), (''N'', 2, ''found''), (''Q'', 0, ''no_data'')]"
    by code_simp
  ultimately show ?thesis
    by (intro conjI)
qed

end
